theory Spec2Isabelle
  imports Complex_Main "HOL-Library.Multiset" "HOL-Library.Log_Nat"
begin

section \<open>The paraxial optics engine of optics.js\<close>

text \<open>
  The engine computes with JavaScript numbers, the binary64 numbers of IEEE 754. Its
  arithmetic is given two readings.

  In the first reading numbers are exact reals. It carries the statements that do not
  depend on how a result is rounded: the bookkeeping of a ray, the order in which the
  system matrix is composed, absent results, aperture clipping.

  In the second reading every arithmetic operation of the source is followed by a
  rounding function \<open>rnd\<close>. With \<open>rnd = fl\<close>, rounding to the nearest number with a
  significand of 53 bits, ties to the even significand, this is the arithmetic of
  binary64 as long as no operation overflows or underflows; with the identity for
  \<open>rnd\<close> it is the first reading. The exponent of \<open>fl\<close> is unbounded, so overflow,
  subnormal numbers, signed zeros and NaN are not represented; statements that bound
  a rounding error name the results they require to lie in the normal range. Statements
  about a threshold or about the value of a computed number are made in this reading.

  A division by a zero focal length yields a non-finite double in the source and lies
  outside both readings; statements whose conclusion depends on the result of such a
  division assume the focal length to be non-zero, the invariant the data model puts on
  a lens. Where the source writes the literal \<open>Infinity\<close> into a result, the result type
  has a value for it.
\<close>

subsection \<open>Ray\<close>

type_synonym point = "real \<times> real"

record ray =
  ray_z :: real
  ray_y :: real
  ray_u :: real
  ray_path :: "point list"
  ray_active :: bool

text \<open>The constructor: the path starts with the initial sample, the ray is active.\<close>

definition Ray :: "real \<Rightarrow> real \<Rightarrow> real \<Rightarrow> ray" where
  "Ray z y u = \<lparr>ray_z = z, ray_y = y, ray_u = u, ray_path = [(z, y)], ray_active = True\<rparr>"

text \<open>
  \<open>propagate(newZ)\<close>: returns at once on an inactive ray; otherwise \<open>y += u * d\<close>
  with \<open>d = newZ - z\<close>, then \<open>z = newZ\<close>, then the new sample is pushed.
\<close>

definition propagate :: "ray \<Rightarrow> real \<Rightarrow> ray" where
  "propagate r newZ =
     (if \<not> ray_active r then r
      else let d = newZ - ray_z r;
               y' = ray_y r + ray_u r * d
           in r\<lparr>ray_y := y', ray_z := newZ, ray_path := ray_path r @ [(newZ, y')]\<rparr>)"

text \<open>\<open>refract(f)\<close>: returns at once on an inactive ray; otherwise \<open>u -= y / f\<close>.\<close>

definition refract :: "ray \<Rightarrow> real \<Rightarrow> ray" where
  "refract r f =
     (if \<not> ray_active r then r
      else r\<lparr>ray_u := ray_u r - ray_y r / f\<rparr>)"

definition stop :: "ray \<Rightarrow> ray" where
  "stop r = r\<lparr>ray_active := False\<rparr>"

text \<open>A call of one of the three methods, and a sequence of calls on one ray.\<close>

datatype ray_call = Propagate real | Refract real | Stop

fun call :: "ray \<Rightarrow> ray_call \<Rightarrow> ray" where
  "call r (Propagate newZ) = propagate r newZ"
| "call r (Refract f) = refract r f"
| "call r Stop = stop r"

definition calls :: "ray \<Rightarrow> ray_call list \<Rightarrow> ray" where
  "calls r cs = foldl call r cs"

text \<open>The invariant of a ray: the path is non-empty and ends at the current position.\<close>

definition ray_inv :: "ray \<Rightarrow> bool" where
  "ray_inv r = (ray_path r \<noteq> [] \<and> last (ray_path r) = (ray_z r, ray_y r))"

subsection \<open>Lens and optical system\<close>

text \<open>
  A lens holds its focal length \<open>f\<close>, its position \<open>z\<close>, its aperture half-height \<open>h\<close>
  and an identifier. The system is its list of lenses, \<open>this.lenses\<close>.
\<close>

record lens =
  lens_f :: real
  lens_z :: real
  lens_h :: real
  lens_id :: string

text \<open>
  \<open>sortLenses\<close>: \<open>Array.prototype.sort\<close> with the comparator \<open>a.z - b.z\<close>, a stable
  sort by ascending position.
\<close>

definition sortLenses :: "lens list \<Rightarrow> lens list" where
  "sortLenses lenses = sort_key lens_z lenses"

text \<open>
  The \<open>for ... of\<close> loop of \<open>traceRay\<close>: \<open>continue\<close> when the ray is beyond the lens by
  more than \<open>1e-9\<close>; otherwise propagate to the lens, \<open>stop\<close> and \<open>break\<close> when the height
  exceeds the aperture, else refract and go on.
\<close>

fun traceRay_loop :: "lens list \<Rightarrow> ray \<Rightarrow> ray" where
  "traceRay_loop [] r = r"
| "traceRay_loop (l # ls) r =
     (if ray_z r > lens_z l + 1 / 10 ^ 9 then traceRay_loop ls r
      else let r1 = propagate r (lens_z l)
           in if \<bar>ray_y r1\<bar> > lens_h l then stop r1
              else traceRay_loop ls (refract r1 (lens_f l)))"

text \<open>
  \<open>traceRay\<close> sorts the lenses of the system in place, runs the loop, and pushes a ray
  that is still active to \<open>lastLensZ + 1000\<close>, where \<open>lastLensZ\<close> is the position of the
  last lens, or the ray's own \<open>z\<close> when there is no lens. The result is the lens list as
  the call leaves it, and the ray.
\<close>

definition traceRay :: "lens list \<Rightarrow> ray \<Rightarrow> lens list \<times> ray" where
  "traceRay lenses ray =
     (let ls = sortLenses lenses;
          r = traceRay_loop ls ray
      in (ls,
          if ray_active r
          then (let lastLensZ = (if length ls > 0 then lens_z (ls ! (length ls - 1)) else ray_z r)
                in propagate r (lastLensZ + 1000))
          else r))"

subsection \<open>System matrix\<close>

record abcd =
  mat_A :: real
  mat_B :: real
  mat_C :: real
  mat_D :: real

text \<open>
  The body of \<open>calculateSystemMatrix\<close>: the loop over the index \<open>i\<close>, with the running
  \<open>A, B, C, D\<close>. For \<open>i > 0\<close> the translation over the gap to the previous lens is applied
  first, then the refraction of lens \<open>i\<close>.
\<close>

function calculateSystemMatrix_loop :: "lens list \<Rightarrow> nat \<Rightarrow> abcd \<Rightarrow> abcd" where
  "calculateSystemMatrix_loop lenses i m =
     (if i < length lenses
      then (let lens = lenses ! i;
                m1 = (if i > 0
                      then (let d = lens_z lens - lens_z (lenses ! (i - 1))
                            in \<lparr>mat_A = mat_A m + d * mat_C m, mat_B = mat_B m + d * mat_D m,
                                mat_C = mat_C m, mat_D = mat_D m\<rparr>)
                      else m);
                power = - 1 / lens_f lens;
                newC_ref = power * mat_A m1 + mat_C m1;
                newD_ref = power * mat_B m1 + mat_D m1
            in calculateSystemMatrix_loop lenses (i + 1)
                 (m1\<lparr>mat_C := newC_ref, mat_D := newD_ref\<rparr>))
      else m)"
  by pat_completeness auto

termination
  by (relation "measure (\<lambda>(lenses, i, m). length lenses - i)") auto

declare calculateSystemMatrix_loop.simps [simp del]

definition calculateSystemMatrix :: "lens list \<Rightarrow> abcd option" where
  "calculateSystemMatrix lenses =
     (if length lenses = 0 then None
      else Some (calculateSystemMatrix_loop lenses 0
                   \<lparr>mat_A = 1, mat_B = 0, mat_C = 0, mat_D = 1\<rparr>))"

subsection \<open>Cardinal points and image\<close>

text \<open>
  A result that the source may set to the literal \<open>Infinity\<close>, with the two sums in
  which such a value occurs: a finite number plus it, and it minus a finite number.
\<close>

datatype number = Finite real | Infinity

fun plus_number :: "real \<Rightarrow> number \<Rightarrow> number" where
  "plus_number a (Finite b) = Finite (a + b)"
| "plus_number a Infinity = Infinity"

fun number_minus :: "number \<Rightarrow> real \<Rightarrow> number" where
  "number_minus (Finite a) b = Finite (a - b)"
| "number_minus Infinity b = Infinity"

record cardinal_points =
  cp_efl :: number
  cp_bfl :: number
  cp_H :: real
  cp_H_prime :: real
  cp_F_prime :: number

definition calculateCardinalPoints :: "lens list \<Rightarrow> cardinal_points option" where
  "calculateCardinalPoints lenses =
     (case calculateSystemMatrix lenses of
        None \<Rightarrow> None
      | Some m \<Rightarrow>
          (let power = - mat_C m;
               efl = (if \<bar>power\<bar> < 1 / 10 ^ 10 then Infinity else Finite (1 / power));
               firstLensZ = lens_z (lenses ! 0);
               lastLensZ = lens_z (lenses ! (length lenses - 1));
               dH = (if \<bar>mat_C m\<bar> < 1 / 10 ^ 10 then 0 else (mat_D m - 1) / mat_C m);
               H = firstLensZ + dH;
               dH_prime = (if \<bar>mat_C m\<bar> < 1 / 10 ^ 10 then 0 else (1 - mat_A m) / mat_C m);
               H_prime = lastLensZ + dH_prime;
               F_prime = plus_number H_prime efl;
               bfl = number_minus F_prime lastLensZ
           in Some \<lparr>cp_efl = efl, cp_bfl = bfl, cp_H = H, cp_H_prime = H_prime,
                     cp_F_prime = F_prime\<rparr>))"

record image =
  img_z :: number
  img_mag :: number
  img_isVirtual :: bool

definition calculateImage :: "lens list \<Rightarrow> real \<Rightarrow> image option" where
  "calculateImage lenses objectZ =
     (if length lenses = 0 then None
      else case calculateSystemMatrix lenses of
        None \<Rightarrow> None
      | Some m \<Rightarrow>
          (let firstLensZ = lens_z (lenses ! 0);
               lastLensZ = lens_z (lenses ! (length lenses - 1));
               d_o = firstLensZ - objectZ;
               numerator = mat_A m * d_o + mat_B m;
               denominator = mat_C m * d_o + mat_D m
           in if \<bar>denominator\<bar> < 1 / 10 ^ 10
              then Some \<lparr>img_z = Infinity, img_mag = Infinity, img_isVirtual = False\<rparr>
              else (let d_i = - numerator / denominator;
                        imageZ = lastLensZ + d_i;
                        mag = mat_A m + d_i * mat_C m
                    in Some \<lparr>img_z = Finite imageZ, img_mag = Finite mag,
                              img_isVirtual = (d_i < 0)\<rparr>)))"

subsection \<open>The composition of element matrices, as the specification words it\<close>

text \<open>
  The optical elements of a lens list from the object side to the image side: a
  refraction at each lens and a translation over the gap between two consecutive
  lenses, none before the first lens and none after the last.
\<close>

datatype element = Refraction real | Translation real

fun element_matrix :: "element \<Rightarrow> abcd" where
  "element_matrix (Refraction f) = \<lparr>mat_A = 1, mat_B = 0, mat_C = - 1 / f, mat_D = 1\<rparr>"
| "element_matrix (Translation d) = \<lparr>mat_A = 1, mat_B = d, mat_C = 0, mat_D = 1\<rparr>"

fun elements :: "lens list \<Rightarrow> element list" where
  "elements [] = []"
| "elements [l] = [Refraction (lens_f l)]"
| "elements (l # l' # ls) =
     Refraction (lens_f l) # Translation (lens_z l' - lens_z l) # elements (l' # ls)"

text \<open>The product of two 2x2 matrices, and the running product over a list of elements.\<close>

definition mat_mul :: "abcd \<Rightarrow> abcd \<Rightarrow> abcd" where
  "mat_mul p q =
     \<lparr>mat_A = mat_A p * mat_A q + mat_B p * mat_C q,
      mat_B = mat_A p * mat_B q + mat_B p * mat_D q,
      mat_C = mat_C p * mat_A q + mat_D p * mat_C q,
      mat_D = mat_C p * mat_B q + mat_D p * mat_D q\<rparr>"

definition mat_identity :: abcd where
  "mat_identity = \<lparr>mat_A = 1, mat_B = 0, mat_C = 0, mat_D = 1\<rparr>"

definition left_multiply :: "abcd \<Rightarrow> element \<Rightarrow> abcd" where
  "left_multiply running e = mat_mul (element_matrix e) running"

definition composed_matrix :: "lens list \<Rightarrow> abcd" where
  "composed_matrix lenses = foldl left_multiply mat_identity (elements lenses)"

definition mat_det :: "abcd \<Rightarrow> real" where
  "mat_det m = mat_A m * mat_D m - mat_B m * mat_C m"

text \<open>
  The elements that the loop of \<open>calculateSystemMatrix\<close> has still to multiply in when
  it is at index \<open>i\<close>: all of them at the start, and from then on those after the
  refraction of lens \<open>i - 1\<close>.
\<close>

fun pending :: "lens list \<Rightarrow> nat \<Rightarrow> element list" where
  "pending ls 0 = elements ls"
| "pending ls (Suc i) = tl (elements (drop i ls))"

subsection \<open>Example data\<close>

text \<open>The two lenses that main.js adds at start-up, \<open>addLens(100, 0, 50)\<close> and
  \<open>addLens(100, 150, 50)\<close>, and a pair of matched lenses a distance \<open>f1 + f2\<close> apart.\<close>

definition example_lens1 :: lens where
  "example_lens1 = \<lparr>lens_f = 100, lens_z = 0, lens_h = 50, lens_id = ''a''\<rparr>"

definition example_lens2 :: lens where
  "example_lens2 = \<lparr>lens_f = 100, lens_z = 150, lens_h = 50, lens_id = ''b''\<rparr>"

definition afocal_lens2 :: lens where
  "afocal_lens2 = \<lparr>lens_f = 100, lens_z = 200, lens_h = 50, lens_id = ''c''\<rparr>"

text \<open>
  A lens far from the origin, where the spacing of binary64 numbers (\<open>2^-29\<close> at \<open>10^7\<close>)
  exceeds the tolerance \<open>1e-9\<close>, and a lens whose focal length 49 has a reciprocal that
  rounds.
\<close>

definition far_lens :: lens where
  "far_lens = \<lparr>lens_f = 100, lens_z = 10 ^ 7, lens_h = 50, lens_id = ''d''\<rparr>"

definition lens49 :: lens where
  "lens49 = \<lparr>lens_f = 49, lens_z = 0, lens_h = 50, lens_id = ''e''\<rparr>"

subsection \<open>Rounding to binary64\<close>

text \<open>
  \<open>rne\<close> rounds a real to the nearest integer, a tie to the even one. \<open>ilog2 x\<close> is the
  exponent \<open>e\<close> with \<open>2^e \<le> x < 2^(e+1)\<close> of a positive real. \<open>fl x\<close> scales \<open>x\<close> so that its
  magnitude lies in \<open>[2^52, 2^53)\<close>, rounds to an integer and scales back: the nearest real
  with a significand of 53 bits. \<open>is_double x\<close>: \<open>x\<close> is such a number.
\<close>

definition rne :: "real \<Rightarrow> int" where
  "rne t = (let n = \<lfloor>t\<rfloor>; r = t - of_int n
            in if r < 1 / 2 then n else if 1 / 2 < r then n + 1
               else if even n then n else n + 1)"

definition ilog2 :: "real \<Rightarrow> int" where
  "ilog2 x = (if 1 \<le> x then bitlen \<lfloor>x\<rfloor> - 1 else - bitlen (\<lceil>1 / x\<rceil> - 1))"

definition fl :: "real \<Rightarrow> real" where
  "fl x = (if x = 0 then 0
           else let s = 2 powi (ilog2 \<bar>x\<bar> - 52) in of_int (rne (x / s)) * s)"

definition is_double :: "real \<Rightarrow> bool" where
  "is_double x = (fl x = x)"

text \<open>
  The exact result of an operation lies in the range where binary64 rounds it as \<open>fl\<close>
  does: it is zero, or its magnitude is at least that of the smallest normal number and
  below \<open>2^1023\<close>.
\<close>

definition in_range :: "real \<Rightarrow> bool" where
  "in_range x = (x = 0 \<or> (2 powi (- 1022) \<le> \<bar>x\<bar> \<and> \<bar>x\<bar> < 2 powi 1023))"

subsection \<open>The engine with rounded arithmetic\<close>

text \<open>
  The methods of the source once more, each arithmetic operation followed by \<open>rnd\<close>.
  The literals \<open>1e-9\<close>, \<open>1e-10\<close> denote the rounded constants. \<open>propagate(newZ)\<close> computes
  \<open>d = newZ - z\<close> and \<open>y += u * d\<close>, and assigns \<open>newZ\<close> itself to \<open>z\<close>; \<open>refract(f)\<close>
  computes \<open>u -= y / f\<close>.
\<close>

definition fp_propagate :: "(real \<Rightarrow> real) \<Rightarrow> ray \<Rightarrow> real \<Rightarrow> ray" where
  "fp_propagate rnd r newZ =
     (if \<not> ray_active r then r
      else let d = rnd (newZ - ray_z r);
               y' = rnd (ray_y r + rnd (ray_u r * d))
           in r\<lparr>ray_y := y', ray_z := newZ, ray_path := ray_path r @ [(newZ, y')]\<rparr>)"

definition fp_refract :: "(real \<Rightarrow> real) \<Rightarrow> ray \<Rightarrow> real \<Rightarrow> ray" where
  "fp_refract rnd r f =
     (if \<not> ray_active r then r
      else r\<lparr>ray_u := rnd (ray_u r - rnd (ray_y r / f))\<rparr>)"

text \<open>
  The loop of \<open>traceRay\<close> with the skip test \<open>ray.z > lens.z + 1e-9\<close> as the machine
  evaluates it, on the rounded sum, and \<open>traceRay\<close> with the rounded target
  \<open>lastLensZ + 1000\<close> of the extension.
\<close>

fun fp_traceRay_loop :: "(real \<Rightarrow> real) \<Rightarrow> lens list \<Rightarrow> ray \<Rightarrow> ray" where
  "fp_traceRay_loop rnd [] r = r"
| "fp_traceRay_loop rnd (l # ls) r =
     (if ray_z r > rnd (lens_z l + rnd (1 / 10 ^ 9)) then fp_traceRay_loop rnd ls r
      else let r1 = fp_propagate rnd r (lens_z l)
           in if \<bar>ray_y r1\<bar> > lens_h l then stop r1
              else fp_traceRay_loop rnd ls (fp_refract rnd r1 (lens_f l)))"

definition fp_traceRay :: "(real \<Rightarrow> real) \<Rightarrow> lens list \<Rightarrow> ray \<Rightarrow> lens list \<times> ray" where
  "fp_traceRay rnd lenses ray =
     (let ls = sortLenses lenses;
          r = fp_traceRay_loop rnd ls ray
      in (ls,
          if ray_active r
          then (let lastLensZ = (if length ls > 0 then lens_z (ls ! (length ls - 1)) else ray_z r)
                in fp_propagate rnd r (rnd (lastLensZ + 1000)))
          else r))"

text \<open>
  The same loop, returning the lenses it propagates the ray to, in the order in which
  it does: the lenses that take part in the trace.
\<close>

fun fp_traceRay_visited :: "(real \<Rightarrow> real) \<Rightarrow> lens list \<Rightarrow> ray \<Rightarrow> lens list" where
  "fp_traceRay_visited rnd [] r = []"
| "fp_traceRay_visited rnd (l # ls) r =
     (if ray_z r > rnd (lens_z l + rnd (1 / 10 ^ 9)) then fp_traceRay_visited rnd ls r
      else let r1 = fp_propagate rnd r (lens_z l)
           in if \<bar>ray_y r1\<bar> > lens_h l then [l]
              else l # fp_traceRay_visited rnd ls (fp_refract rnd r1 (lens_f l)))"

text \<open>
  The index loop of \<open>calculateSystemMatrix\<close>: the translation \<open>A += d * C\<close>, \<open>B += d * D\<close>,
  then \<open>power = -1 / f\<close> and the refraction \<open>C' = power * A + C\<close>, \<open>D' = power * B + D\<close>.
\<close>

function fp_calculateSystemMatrix_loop ::
    "(real \<Rightarrow> real) \<Rightarrow> lens list \<Rightarrow> nat \<Rightarrow> abcd \<Rightarrow> abcd" where
  "fp_calculateSystemMatrix_loop rnd lenses i m =
     (if i < length lenses
      then (let lens = lenses ! i;
                m1 = (if i > 0
                      then (let d = rnd (lens_z lens - lens_z (lenses ! (i - 1)))
                            in \<lparr>mat_A = rnd (mat_A m + rnd (d * mat_C m)),
                                mat_B = rnd (mat_B m + rnd (d * mat_D m)),
                                mat_C = mat_C m, mat_D = mat_D m\<rparr>)
                      else m);
                power = rnd (- 1 / lens_f lens);
                newC_ref = rnd (rnd (power * mat_A m1) + mat_C m1);
                newD_ref = rnd (rnd (power * mat_B m1) + mat_D m1)
            in fp_calculateSystemMatrix_loop rnd lenses (i + 1)
                 (m1\<lparr>mat_C := newC_ref, mat_D := newD_ref\<rparr>))
      else m)"
  by pat_completeness auto

termination
  by (relation "measure (\<lambda>(rnd, lenses, i, m). length lenses - i)") auto

declare fp_calculateSystemMatrix_loop.simps [simp del]

definition fp_calculateSystemMatrix :: "(real \<Rightarrow> real) \<Rightarrow> lens list \<Rightarrow> abcd option" where
  "fp_calculateSystemMatrix rnd lenses =
     (if length lenses = 0 then None
      else Some (fp_calculateSystemMatrix_loop rnd lenses 0
                   \<lparr>mat_A = 1, mat_B = 0, mat_C = 0, mat_D = 1\<rparr>))"

text \<open>
  \<open>calculateCardinalPoints\<close> and \<open>calculateImage\<close>, operation by operation as the source
  writes them.
\<close>

definition fp_calculateCardinalPoints ::
    "(real \<Rightarrow> real) \<Rightarrow> lens list \<Rightarrow> cardinal_points option" where
  "fp_calculateCardinalPoints rnd lenses =
     (case fp_calculateSystemMatrix rnd lenses of
        None \<Rightarrow> None
      | Some m \<Rightarrow>
          (let power = - mat_C m;
               efl = (if \<bar>power\<bar> < rnd (1 / 10 ^ 10) then Infinity else Finite (rnd (1 / power)));
               firstLensZ = lens_z (lenses ! 0);
               lastLensZ = lens_z (lenses ! (length lenses - 1));
               dH = (if \<bar>mat_C m\<bar> < rnd (1 / 10 ^ 10) then 0
                     else rnd (rnd (mat_D m - 1) / mat_C m));
               H = rnd (firstLensZ + dH);
               dH_prime = (if \<bar>mat_C m\<bar> < rnd (1 / 10 ^ 10) then 0
                           else rnd (rnd (1 - mat_A m) / mat_C m));
               H_prime = rnd (lastLensZ + dH_prime);
               F_prime = (case efl of Finite e \<Rightarrow> Finite (rnd (H_prime + e)) | Infinity \<Rightarrow> Infinity);
               bfl = (case F_prime of Finite p \<Rightarrow> Finite (rnd (p - lastLensZ)) | Infinity \<Rightarrow> Infinity)
           in Some \<lparr>cp_efl = efl, cp_bfl = bfl, cp_H = H, cp_H_prime = H_prime,
                     cp_F_prime = F_prime\<rparr>))"

definition fp_calculateImage :: "(real \<Rightarrow> real) \<Rightarrow> lens list \<Rightarrow> real \<Rightarrow> image option" where
  "fp_calculateImage rnd lenses objectZ =
     (if length lenses = 0 then None
      else case fp_calculateSystemMatrix rnd lenses of
        None \<Rightarrow> None
      | Some m \<Rightarrow>
          (let firstLensZ = lens_z (lenses ! 0);
               lastLensZ = lens_z (lenses ! (length lenses - 1));
               d_o = rnd (firstLensZ - objectZ);
               numerator = rnd (rnd (mat_A m * d_o) + mat_B m);
               denominator = rnd (rnd (mat_C m * d_o) + mat_D m)
           in if \<bar>denominator\<bar> < rnd (1 / 10 ^ 10)
              then Some \<lparr>img_z = Infinity, img_mag = Infinity, img_isVirtual = False\<rparr>
              else (let d_i = rnd (- numerator / denominator);
                        imageZ = rnd (lastLensZ + d_i);
                        mag = rnd (mat_A m + rnd (d_i * mat_C m))
                    in Some \<lparr>img_z = Finite imageZ, img_mag = Finite mag,
                              img_isVirtual = (d_i < 0)\<rparr>)))"

section \<open>Properties of the ray operations\<close>

lemma propagate_active [simp]: "ray_active (propagate r t) = ray_active r"
  by (simp add: propagate_def Let_def)

lemma refract_active [simp]: "ray_active (refract r f) = ray_active r"
  by (simp add: refract_def)

lemma stop_inactive [simp]: "\<not> ray_active (stop r)"
  by (simp add: stop_def)

lemma stop_fields [simp]:
  "ray_path (stop r) = ray_path r" "ray_z (stop r) = ray_z r" "ray_y (stop r) = ray_y r"
  "ray_u (stop r) = ray_u r"
  by (simp_all add: stop_def)

lemma refract_fields [simp]:
  "ray_path (refract r f) = ray_path r" "ray_z (refract r f) = ray_z r"
  "ray_y (refract r f) = ray_y r"
  by (simp_all add: refract_def)

lemma propagate_fields:
  "ray_active r \<Longrightarrow> ray_z (propagate r t) = t"
  "ray_active r \<Longrightarrow> ray_y (propagate r t) = ray_y r + ray_u r * (t - ray_z r)"
  "ray_active r \<Longrightarrow> ray_path (propagate r t) = ray_path r @ [(t, ray_y r + ray_u r * (t - ray_z r))]"
  "ray_u (propagate r t) = ray_u r"
  by (simp_all add: propagate_def Let_def)

lemma inactive_noop:
  "\<not> ray_active r \<Longrightarrow> propagate r t = r"
  "\<not> ray_active r \<Longrightarrow> refract r f = r"
  "\<not> ray_active r \<Longrightarrow> stop r = r"
  by (simp_all add: propagate_def refract_def stop_def)

lemma inactive_call: "\<not> ray_active r \<Longrightarrow> call r c = r"
  by (cases c) (simp_all add: propagate_def refract_def stop_def)

lemma inactive_calls: "\<not> ray_active r \<Longrightarrow> foldl call r cs = r"
  by (induction cs) (simp_all add: inactive_call)

text \<open>
  C9. Once \<open>stop()\<close> has been called, every later call of \<open>propagate\<close>, \<open>refract\<close>
  (and \<open>stop\<close>), with any argument and in any number, leaves the ray as \<open>stop()\<close>
  left it: \<open>z\<close>, \<open>y\<close>, \<open>u\<close>, \<open>active\<close> and \<open>path\<close> are unchanged, and \<open>active\<close> is false.
\<close>

theorem stopped_ray_is_frozen:
  "calls (stop r) cs = stop r \<and> ray_active (calls (stop r) cs) = False
   \<and> propagate (stop r) targetZ = stop r \<and> refract (stop r) f = stop r"
proof -
  have na: "\<not> ray_active (stop r)" by (simp add: stop_def)
  have "calls (stop r) cs = stop r"
    unfolding calls_def using na by (rule inactive_calls)
  moreover have "propagate (stop r) targetZ = stop r"
    using na by (simp add: propagate_def)
  moreover have "refract (stop r) f = stop r"
    using na by (simp add: refract_def)
  ultimately show ?thesis using na by simp
qed

text \<open>
  C10. The constructor establishes the invariant (non-empty path ending at the
  current \<open>(z, y)\<close>); every operation preserves it; \<open>propagate\<close> on an active ray
  appends exactly one sample, the new \<open>(z, y)\<close>; \<open>refract\<close> and \<open>stop\<close>, and every
  operation on an inactive ray, leave \<open>z\<close>, \<open>y\<close> and the path as they were.
\<close>

theorem ray_invariant:
  "ray_inv (Ray z0 y0 u0)
   \<and> (ray_inv r \<longrightarrow> ray_inv (propagate r t) \<and> ray_inv (refract r f) \<and> ray_inv (stop r))
   \<and> (ray_active r \<longrightarrow>
        ray_path (propagate r t) = ray_path r @ [(ray_z (propagate r t), ray_y (propagate r t))]
        \<and> ray_z (propagate r t) = t
        \<and> ray_y (propagate r t) = ray_y r + ray_u r * (t - ray_z r))
   \<and> (\<not> ray_active r \<longrightarrow> propagate r t = r \<and> refract r f = r \<and> stop r = r)
   \<and> ray_path (refract r f) = ray_path r \<and> ray_z (refract r f) = ray_z r
   \<and> ray_y (refract r f) = ray_y r
   \<and> ray_path (stop r) = ray_path r \<and> ray_z (stop r) = ray_z r \<and> ray_y (stop r) = ray_y r"
  by (simp add: ray_inv_def Ray_def propagate_def refract_def stop_def Let_def)

theorem ray_invariant_witness:
  "ray_inv (Ray 0 1 2)
   \<and> ray_inv (propagate (Ray 0 1 2) 3) \<and> ray_inv (refract (Ray 0 1 2) 4)
   \<and> ray_inv (stop (Ray 0 1 2))
   \<and> ray_path (propagate (Ray 0 1 2) 3) = [(0, 1), (3, 7)]
   \<and> propagate (stop (Ray 0 1 2)) 3 = stop (Ray 0 1 2)"
  using ray_invariant [of 0 1 2 "Ray 0 1 2" 3 4] ray_invariant [of 0 1 2 "stop (Ray 0 1 2)" 3 4]
  by (simp add: Ray_def propagate_def stop_def Let_def)

section \<open>The system matrix\<close>

lemma csm_loop_unfold:
  "calculateSystemMatrix_loop ls i m =
     (if i < length ls
      then calculateSystemMatrix_loop ls (i + 1)
             (left_multiply
                (if i > 0 then left_multiply m (Translation (lens_z (ls ! i) - lens_z (ls ! (i - 1)))) else m)
                (Refraction (lens_f (ls ! i))))
      else m)"
proof (cases m)
  case (fields a b c d)
  show ?thesis
    unfolding fields
    by (subst calculateSystemMatrix_loop.simps)
       (simp add: Let_def left_multiply_def mat_mul_def)
qed

lemma elements_Cons:
  "elements (l # ls) =
     Refraction (lens_f l) #
       (case ls of [] \<Rightarrow> [] | l' # ls' \<Rightarrow> Translation (lens_z l' - lens_z l) # elements ls)"
  by (cases ls) simp_all

lemma pending_step:
  assumes "i < length ls"
  shows "pending ls i = (if i > 0 then [Translation (lens_z (ls ! i) - lens_z (ls ! (i - 1)))] else [])
            @ Refraction (lens_f (ls ! i)) # pending ls (Suc i)"
proof (cases i)
  case 0
  then show ?thesis using assms by (cases ls) (simp_all add: elements_Cons)
next
  case (Suc j)
  have a: "drop j ls = ls ! j # drop i ls" using assms Suc
    by (simp add: Cons_nth_drop_Suc)
  have b: "drop i ls = ls ! i # drop (Suc i) ls" using assms
    by (simp add: Cons_nth_drop_Suc)
  show ?thesis using Suc by (simp add: a b[unfolded Suc] elements_Cons)
qed

lemma pending_end: "ls \<noteq> [] \<Longrightarrow> pending ls (length ls) = []"
proof -
  assume "ls \<noteq> []"
  then obtain j where j: "length ls = Suc j" by (cases ls) auto
  then have "drop j ls = [ls ! j]"
    using Cons_nth_drop_Suc[of j ls] by simp
  then show ?thesis by (simp add: j)
qed

lemma csm_loop_pending:
  "i \<le> length ls \<Longrightarrow> ls \<noteq> [] \<Longrightarrow>
     calculateSystemMatrix_loop ls i m = foldl left_multiply m (pending ls i)"
proof (induction "length ls - i" arbitrary: i m)
  case 0
  then have "i = length ls" by simp
  then show ?case using 0 by (subst csm_loop_unfold) (simp add: pending_end)
next
  case (Suc k)
  then have lt: "i < length ls" by simp
  have "k = length ls - Suc i" using Suc by simp
  from Suc(1)[OF this] lt Suc(4)
  have ih: "\<And>m. calculateSystemMatrix_loop ls (Suc i) m =
                  foldl left_multiply m (pending ls (Suc i))"
    by simp
  show ?case
    by (subst csm_loop_unfold) (simp add: lt ih pending_step[OF lt] del: pending.simps)
qed

lemma left_multiply_det: "mat_det (left_multiply m e) = mat_det m"
  by (cases e) (simp_all add: mat_det_def left_multiply_def mat_mul_def algebra_simps)

lemma csm_loop_det: "mat_det (calculateSystemMatrix_loop ls i m) = mat_det m"
proof (induction "length ls - i" arbitrary: i m)
  case 0
  then show ?case by (subst csm_loop_unfold) simp
next
  case (Suc k)
  then have lt: "i < length ls" by simp
  have "k = length ls - Suc i" using Suc by simp
  note ih = Suc(1)[OF this]
  show ?case
    by (subst csm_loop_unfold) (simp add: lt ih left_multiply_det)
qed

lemma csm_det:
  assumes "calculateSystemMatrix lenses = Some m"
  shows "mat_det m = 1"
proof -
  from assms have "m = calculateSystemMatrix_loop lenses 0 \<lparr>mat_A = 1, mat_B = 0, mat_C = 0, mat_D = 1\<rparr>"
    by (simp add: calculateSystemMatrix_def split: if_splits)
  then show ?thesis by (simp add: csm_loop_det) (simp add: mat_det_def)
qed

text \<open>
  C1. For a non-empty lens list, sorted by ascending position and with every focal
  length non-zero, \<open>calculateSystemMatrix\<close> returns the matrix composed from the
  elements of the list taken from the object side to the image side, a refraction
  \<open>(1 0; -1/f 1)\<close> at each lens and a translation \<open>(1 d; 0 1)\<close> over each gap between
  consecutive lenses, each element's matrix multiplied from the left onto the running
  product, with no translation before the first lens or after the last.
\<close>

theorem system_matrix_is_composition:
  assumes "lenses \<noteq> []"
    and "sorted (map lens_z lenses)"
    and "\<forall>l \<in> set lenses. lens_f l \<noteq> 0"
  shows "calculateSystemMatrix lenses = Some (composed_matrix lenses)"
  using assms(1)
  by (simp add: calculateSystemMatrix_def composed_matrix_def csm_loop_pending mat_identity_def)

theorem system_matrix_is_composition_witness:
  "[example_lens1, example_lens2] \<noteq> []
   \<and> sorted (map lens_z [example_lens1, example_lens2])
   \<and> lens_f example_lens1 \<noteq> 0 \<and> lens_f example_lens2 \<noteq> 0
   \<and> calculateSystemMatrix [example_lens1, example_lens2] =
        Some \<lparr>mat_A = - 1 / 2, mat_B = 150, mat_C = - 1 / 200, mat_D = - 1 / 2\<rparr>"
  using system_matrix_is_composition [of "[example_lens1, example_lens2]"]
  by (simp add: composed_matrix_def left_multiply_def mat_mul_def mat_identity_def
      example_lens1_def example_lens2_def)

text \<open>
  C8. With no lens in the system, \<open>calculateSystemMatrix\<close>, \<open>calculateCardinalPoints\<close>
  and \<open>calculateImage\<close>, for every object position, each return the absent result.
\<close>

theorem empty_system_is_absent:
  "calculateSystemMatrix [] = None \<and> calculateCardinalPoints [] = None
   \<and> calculateImage [] objectZ = None"
  by (simp add: calculateSystemMatrix_def calculateCardinalPoints_def calculateImage_def)

lemma example_matrix:
  "calculateSystemMatrix [example_lens1, example_lens2] =
     Some \<lparr>mat_A = - 1 / 2, mat_B = 150, mat_C = - 1 / 200, mat_D = - 1 / 2\<rparr>"
  by (simp add: calculateSystemMatrix_def csm_loop_pending left_multiply_def mat_mul_def
      example_lens1_def example_lens2_def)

section \<open>Tracing a ray through the system\<close>

lemma loop_inactive: "\<not> ray_active r \<Longrightarrow> traceRay_loop ls r = r"
  by (induction ls) (simp_all add: inactive_noop Let_def)

lemma loop_append:
  "traceRay_loop (pre @ post) r =
     (if ray_active (traceRay_loop pre r) then traceRay_loop post (traceRay_loop pre r)
      else traceRay_loop pre r)"
proof (induction pre arbitrary: r)
  case Nil
  then show ?case by (simp add: loop_inactive)
next
  case (Cons l pre)
  then show ?case by (simp add: Let_def)
qed

lemma sortLenses_sorted: "sorted (map lens_z (sortLenses ls))"
  by (simp add: sortLenses_def)

lemma sortLenses_set: "set (sortLenses ls) = set ls"
  by (simp add: sortLenses_def)

lemma sortLenses_mset: "mset (sortLenses ls) = mset ls"
  by (simp add: sortLenses_def)

lemma sortLenses_Nil: "sortLenses ls = [] \<longleftrightarrow> ls = []"
  using sortLenses_set[of ls] by (metis set_empty)

lemma traceRay_snd:
  "snd (traceRay ls r) =
     (if ray_active (traceRay_loop (sortLenses ls) r)
      then propagate (traceRay_loop (sortLenses ls) r)
             ((if sortLenses ls = [] then ray_z (traceRay_loop (sortLenses ls) r)
               else lens_z (last (sortLenses ls))) + 1000)
      else traceRay_loop (sortLenses ls) r)"
  by (simp add: traceRay_def Let_def last_conv_nth)

lemma sorted_le_last:
  assumes "sorted (map lens_z ls)" and "l \<in> set ls"
  shows "lens_z l \<le> lens_z (last ls)"
proof -
  from assms(2) have ne: "ls \<noteq> []" by auto
  then have ls: "ls = butlast ls @ [last ls]" by simp
  show ?thesis
  proof (cases "l = last ls")
    case True
    then show ?thesis by simp
  next
    case False
    with assms(2) ls have "l \<in> set (butlast ls)"
      by (metis Un_iff empty_iff empty_set set_ConsD set_append)
    moreover have "sorted (map lens_z (butlast ls) @ [lens_z (last ls)])"
      using assms(1) ls by (metis list.simps(8,9) map_append)
    ultimately show ?thesis by (auto simp: sorted_append)
  qed
qed

lemma sorted_wrt_shape:
  assumes "\<forall>a \<in> set A. R z a" and "sorted_wrt R A" and "\<forall>a \<in> set A. \<forall>e \<in> set E. R a e"
    and "\<forall>e \<in> set E. R z e" and "length E \<le> 1"
  shows "sorted_wrt R (z # A @ E)"
  using assms by (auto simp add: sorted_wrt_append sorted_wrt01)

text \<open>The definitions unfolded when a trace is evaluated on concrete lenses and rays.\<close>

lemmas eval_defs = traceRay_def sortLenses_def propagate_def refract_def stop_def Ray_def Let_def
  example_lens1_def example_lens2_def afocal_lens2_def

subsection \<open>Aperture clipping\<close>

text \<open>
  C3. Let the ray reach a lens \<open>l\<close> of the sorted list still active (\<open>r_pre\<close> is the ray
  after the lenses before \<open>l\<close>), let \<open>l\<close> take part (the ray is not beyond it by more
  than \<open>1e-9\<close>), and let the height of the ray propagated to the plane of \<open>l\<close> exceed the
  aperture half-height of \<open>l\<close>. Then after \<open>traceRay\<close> the ray is inactive, its path is
  the path it had on reaching \<open>l\<close> plus the one sample at the plane of \<open>l\<close>, so the last
  sample has \<open>z\<close> equal to the position of \<open>l\<close>, and nothing is appended after it: the
  extension by 1000 is not applied.
\<close>

theorem blocked_ray_ends_at_lens:
  assumes "\<forall>l \<in> set lenses. lens_f l \<noteq> 0"
    and "sortLenses lenses = pre @ l # post"
    and "r_pre = traceRay_loop pre r"
    and "ray_active r_pre"
    and "\<not> ray_z r_pre > lens_z l + 1 / 10 ^ 9"
    and "r_at = propagate r_pre (lens_z l)"
    and "\<bar>ray_y r_at\<bar> > lens_h l"
    and "r' = snd (traceRay lenses r)"
  shows "ray_active r' = False
         \<and> ray_path r' = ray_path r_pre @ [(lens_z l, ray_y r_at)]
         \<and> last (ray_path r') = (lens_z l, ray_y r_at)
         \<and> ray_z r' = lens_z l \<and> ray_y r' = ray_y r_at \<and> ray_u r' = ray_u r_pre"
proof -
  have "traceRay_loop (l # post) r_pre = stop r_at"
    using assms(5,6,7) by (simp add: Let_def)
  then have "traceRay_loop (sortLenses lenses) r = stop r_at"
    unfolding assms(2) using assms(3,4) by (simp add: loop_append)
  then have "r' = stop r_at"
    unfolding assms(8) by (simp add: traceRay_snd)
  then show ?thesis
    using assms(4) unfolding assms(6) by (simp add: propagate_fields)
qed

theorem blocked_ray_ends_at_lens_witness:
  "lens_f example_lens1 \<noteq> 0 \<and> lens_f example_lens2 \<noteq> 0
   \<and> sortLenses [example_lens2, example_lens1] = [example_lens1] @ example_lens2 # []
   \<and> ray_active (traceRay_loop [example_lens1] (Ray (- 50) 0 (9 / 10)))
   \<and> \<not> ray_z (traceRay_loop [example_lens1] (Ray (- 50) 0 (9 / 10))) > lens_z example_lens2 + 1 / 10 ^ 9
   \<and> \<bar>ray_y (propagate (traceRay_loop [example_lens1] (Ray (- 50) 0 (9 / 10))) (lens_z example_lens2))\<bar>
        > lens_h example_lens2
   \<and> \<not> ray_active (snd (traceRay [example_lens2, example_lens1] (Ray (- 50) 0 (9 / 10))))
   \<and> ray_path (snd (traceRay [example_lens2, example_lens1] (Ray (- 50) 0 (9 / 10))))
        = [(- 50, 0), (0, 45), (150, 225 / 2)]"
proof -
  have h1: "\<forall>l \<in> set [example_lens2, example_lens1]. lens_f l \<noteq> 0"
    by (simp add: example_lens1_def example_lens2_def)
  have h2: "sortLenses [example_lens2, example_lens1] = [example_lens1] @ example_lens2 # []"
    by (simp add: sortLenses_def example_lens1_def example_lens2_def)
  have h4: "ray_active (traceRay_loop [example_lens1] (Ray (- 50) 0 (9 / 10)))"
    by (simp add: eval_defs)
  have h5: "\<not> ray_z (traceRay_loop [example_lens1] (Ray (- 50) 0 (9 / 10))) > lens_z example_lens2 + 1 / 10 ^ 9"
    by (simp add: eval_defs)
  have h7: "\<bar>ray_y (propagate (traceRay_loop [example_lens1] (Ray (- 50) 0 (9 / 10))) (lens_z example_lens2))\<bar>
        > lens_h example_lens2"
    by (simp add: eval_defs)
  have pre: "ray_path (traceRay_loop [example_lens1] (Ray (- 50) 0 (9 / 10))) = [(- 50, 0), (0, 45)]"
    by (simp add: eval_defs)
  have at: "ray_y (propagate (traceRay_loop [example_lens1] (Ray (- 50) 0 (9 / 10))) (lens_z example_lens2)) = 225 / 2"
    by (simp add: eval_defs)
  from blocked_ray_ends_at_lens [OF h1 h2 refl h4 h5 refl h7 refl]
  show ?thesis using h2 h4 h5 h7 pre at
    by (simp add: example_lens1_def example_lens2_def)
qed

section \<open>Rounding to binary64\<close>

subsection \<open>Rounding to the nearest integer\<close>

lemma rne_cases:
  "rne t = \<lfloor>t\<rfloor> \<or> rne t = \<lfloor>t\<rfloor> + 1"
  by (simp add: rne_def Let_def)

lemma rne_half: "\<bar>of_int (rne t) - t\<bar> \<le> 1 / 2"
  unfolding rne_def Let_def by (auto; linarith)

lemma rne_nearest: "\<bar>of_int (rne t) - t\<bar> \<le> \<bar>of_int k - t\<bar>"
proof (cases "k \<le> \<lfloor>t\<rfloor>")
  case True
  then have "of_int k \<le> (of_int \<lfloor>t\<rfloor> :: real)" by simp
  then have "\<bar>of_int k - t\<bar> \<ge> t - of_int \<lfloor>t\<rfloor>" by linarith
  moreover have "\<bar>of_int (rne t) - t\<bar> \<le> t - of_int \<lfloor>t\<rfloor>"
    unfolding rne_def Let_def by (auto; linarith)
  ultimately show ?thesis by linarith
next
  case False
  then have "\<lfloor>t\<rfloor> + 1 \<le> k" by simp
  then have "of_int \<lfloor>t\<rfloor> + 1 \<le> (of_int k :: real)" by linarith
  then have "\<bar>of_int k - t\<bar> \<ge> of_int \<lfloor>t\<rfloor> + 1 - t" by linarith
  moreover have "\<bar>of_int (rne t) - t\<bar> \<le> of_int \<lfloor>t\<rfloor> + 1 - t"
    unfolding rne_def Let_def by (auto; linarith)
  ultimately show ?thesis by linarith
qed

lemma rne_of_int [simp]: "rne (of_int n) = n"
  by (simp add: rne_def)

lemma rne_eqI: "\<bar>t - of_int n\<bar> < 1 / 2 \<Longrightarrow> rne t = n"
proof -
  assume a: "\<bar>t - of_int n\<bar> < 1 / 2"
  have "\<bar>of_int (rne t) - t\<bar> \<le> 1 / 2" by (rule rne_half)
  with a have "\<bar>(of_int (rne t) :: real) - of_int n\<bar> < 1" by linarith
  then have "\<bar>rne t - n\<bar> < 1" by (metis of_int_abs of_int_diff of_int_less_1_iff)
  then show ?thesis by simp
qed

lemma rne_minus: "rne (- t) = - rne t"
proof (cases "t = of_int \<lfloor>t\<rfloor>")
  case True
  then obtain n where "t = of_int n" ..
  then show ?thesis by (simp flip: of_int_minus)
next
  case False
  then have fl: "\<lfloor>- t\<rfloor> = - \<lfloor>t\<rfloor> - 1"
    by (metis ceiling_altdef ceiling_def add_diff_cancel_right' minus_diff_eq diff_minus_eq_add minus_add_distrib neg_equal_iff_equal uminus_add_conv_diff)
  show ?thesis
    unfolding rne_def Let_def fl by (auto; linarith?)
qed

lemma rne_tie:
  assumes "t - of_int m = 1 / 2"
  shows "rne t = (if even m then m else m + 1)"
proof -
  have "\<lfloor>t\<rfloor> = m" using assms by linarith
  then show ?thesis using assms by (simp add: rne_def Let_def)
qed

subsection \<open>The exponent of a positive real\<close>

lemma ilog2_bounds:
  assumes "0 < x"
  shows "2 powi ilog2 x \<le> x" and "x < 2 powi (ilog2 x + 1)"
proof -
  have "2 powi ilog2 x \<le> x \<and> x < 2 powi (ilog2 x + 1)"
  proof (cases "1 \<le> x")
    case True
    let ?n = "\<lfloor>x\<rfloor>"
    have n: "0 < ?n" using True by simp
    from bitlen_bounds[OF n] have b: "2 ^ nat (bitlen ?n - 1) \<le> ?n" "?n < 2 ^ nat (bitlen ?n)"
      by auto
    have b1: "1 \<le> bitlen ?n" using n by (simp add: bitlen_alt_def) 
    have e: "ilog2 x = bitlen ?n - 1" using True by (simp add: ilog2_def)
    have "(2::real) powi (bitlen ?n - 1) = 2 ^ nat (bitlen ?n - 1)"
      using b1 by (simp add: power_int_def)
    also have "\<dots> = of_int (2 ^ nat (bitlen ?n - 1))" by simp
    also have "\<dots> \<le> of_int ?n" using b(1) by (simp only: of_int_le_iff)
    also have "\<dots> \<le> x" by simp
    finally have lo: "2 powi (bitlen ?n - 1) \<le> x" .
    have "x < of_int (?n + 1)" by linarith
    also have "\<dots> \<le> of_int (2 ^ nat (bitlen ?n))" using b(2) by (simp only: of_int_le_iff)
    also have "\<dots> = (2::real) powi (bitlen ?n)" using b1 by (simp add: power_int_def)
    finally have hi: "x < 2 powi (bitlen ?n)" .
    show ?thesis unfolding e using lo hi by simp
  next
    case False
    then have x1: "x < 1" by simp
    let ?m = "\<lceil>1 / x\<rceil> - 1"
    have inv: "1 < 1 / x" using assms x1 by simp
    then have m: "0 < ?m" by linarith
    from bitlen_bounds[OF m] have b: "2 ^ nat (bitlen ?m - 1) \<le> ?m" "?m < 2 ^ nat (bitlen ?m)"
      by auto
    have b1: "1 \<le> bitlen ?m" using m by (simp add: bitlen_alt_def)
    have e: "ilog2 x = - bitlen ?m" using False by (simp add: ilog2_def)
    have "1 / x \<le> of_int (?m + 1)" by simp
    also have "\<dots> \<le> of_int (2 ^ nat (bitlen ?m))" using b(2) by (simp only: of_int_le_iff)
    also have "\<dots> = (2::real) ^ nat (bitlen ?m)" by simp
    finally have "1 / x \<le> 2 ^ nat (bitlen ?m)" .
    then have "1 / 2 ^ nat (bitlen ?m) \<le> x"
      using assms by (simp add: field_simps)
    moreover have "(2::real) powi (- bitlen ?m) = 1 / 2 ^ nat (bitlen ?m)"
      using b1 by (simp add: power_int_def field_simps)
    ultimately have lo: "2 powi (- bitlen ?m) \<le> x" by simp
    have "(2::real) ^ nat (bitlen ?m - 1) = of_int (2 ^ nat (bitlen ?m - 1))" by simp
    also have "\<dots> \<le> of_int ?m" using b(1) by (simp only: of_int_le_iff)
    also have "\<dots> < 1 / x" by linarith
    finally have "(2::real) ^ nat (bitlen ?m - 1) < 1 / x" .
    then have "x < 1 / 2 ^ nat (bitlen ?m - 1)"
      using assms by (simp add: field_simps)
    moreover have "(2::real) powi (- bitlen ?m + 1) = 1 / 2 ^ nat (bitlen ?m - 1)"
    proof (cases "bitlen ?m = 1")
      case True
      then show ?thesis by simp
    next
      case False
      with b1 have "- bitlen ?m + 1 < 0" by simp
      moreover have "nat (- (- bitlen ?m + 1)) = nat (bitlen ?m - 1)" by simp
      ultimately show ?thesis by (simp add: power_int_def field_simps)
    qed
    ultimately have hi: "x < 2 powi (- bitlen ?m + 1)" by simp
    show ?thesis unfolding e using lo hi by simp
  qed
  then show "2 powi ilog2 x \<le> x" and "x < 2 powi (ilog2 x + 1)" by simp_all
qed

lemma ilog2_unique:
  assumes "2 powi e \<le> x" and "x < 2 powi (e + 1)"
  shows "ilog2 x = e"
proof -
  have pos: "0 < x" using assms(1) zero_less_power_int[of "2::real" e] by linarith
  note b = ilog2_bounds[OF pos]
  have "\<not> ilog2 x < e"
  proof
    assume "ilog2 x < e"
    then have "ilog2 x + 1 \<le> e" by simp
    then have "(2::real) powi (ilog2 x + 1) \<le> 2 powi e" by (intro power_int_increasing) simp_all
    with b(2) assms(1) show False by linarith
  qed
  moreover have "\<not> e < ilog2 x"
  proof
    assume "e < ilog2 x"
    then have "e + 1 \<le> ilog2 x" by simp
    then have "(2::real) powi (e + 1) \<le> 2 powi ilog2 x" by (intro power_int_increasing) simp_all
    with b(1) assms(2) show False by linarith
  qed
  ultimately show ?thesis by simp
qed

lemma pow2_add: "(2::real) powi (a + b) = 2 powi a * 2 powi b"
  by (rule power_int_add) simp

lemma pow2_shift: "(2::real) powi e / 2 powi (e - 52) = 2 ^ 52"
  using pow2_add[of "e - 52" 52] by simp

lemma pow2_shift1: "(2::real) powi (e + 1) / 2 powi (e - 52) = 2 ^ 53"
  using pow2_add[of "e - 52" 53] by (simp add: add.commute)

lemma pow2_split53: "(2::real) powi (e - 53) = 2 powi (- 53) * 2 powi e"
  using pow2_add[of "- 53" e] by (simp add: algebra_simps)

lemma pow2_less_D: "(2::real) powi a < 2 powi b \<Longrightarrow> a < b"
proof (rule ccontr)
  assume lt: "(2::real) powi a < 2 powi b" and "\<not> a < b"
  then have "b \<le> a" by simp
  then have "(2::real) powi b \<le> 2 powi a" by (intro power_int_increasing) simp_all
  with lt show False by linarith
qed

lemma pow2_mono: "a \<le> b \<Longrightarrow> (2::real) powi a \<le> 2 powi b"
  by (intro power_int_increasing) simp_all

subsection \<open>The rounded value\<close>

text \<open>
  The shape of a rounded value: significand, scale and the interval of the scaled argument.
\<close>

lemma fl_shape:
  assumes "x \<noteq> 0"
  shows "fl x = of_int (rne (x / 2 powi (ilog2 \<bar>x\<bar> - 52))) * 2 powi (ilog2 \<bar>x\<bar> - 52)"
    and "(0::real) < 2 powi (ilog2 \<bar>x\<bar> - 52)"
    and "2 ^ 52 \<le> \<bar>x\<bar> / 2 powi (ilog2 \<bar>x\<bar> - 52)"
    and "\<bar>x\<bar> / 2 powi (ilog2 \<bar>x\<bar> - 52) < 2 ^ 53"
    and "2 powi (ilog2 \<bar>x\<bar>) \<le> \<bar>x\<bar>" and "\<bar>x\<bar> < 2 powi (ilog2 \<bar>x\<bar> + 1)"
proof -
  define e where "e = ilog2 \<bar>x\<bar>"
  define s :: real where "s = 2 powi (e - 52)"
  have pos: "0 < \<bar>x\<bar>" using assms(1) by simp
  have 1: "fl x = of_int (rne (x / s)) * s"
    using assms(1) by (simp add: fl_def s_def e_def Let_def)
  have s: "0 < s" by (simp add: s_def)
  have lo: "2 powi e \<le> \<bar>x\<bar>" and hi: "\<bar>x\<bar> < 2 powi (e + 1)"
    unfolding e_def using ilog2_bounds[OF pos] by simp_all
  from lo have "2 powi e / s \<le> \<bar>x\<bar> / s" using s by (simp add: divide_right_mono)
  then have 3: "2 ^ 52 \<le> \<bar>x\<bar> / s" unfolding s_def by (simp only: pow2_shift)
  from hi have "\<bar>x\<bar> / s < 2 powi (e + 1) / s" using s by (simp add: divide_strict_right_mono)
  then have 4: "\<bar>x\<bar> / s < 2 ^ 53" unfolding s_def by (simp only: pow2_shift1)
  show "fl x = of_int (rne (x / 2 powi (ilog2 \<bar>x\<bar> - 52))) * 2 powi (ilog2 \<bar>x\<bar> - 52)"
    using 1 unfolding s_def e_def .
  show "(0::real) < 2 powi (ilog2 \<bar>x\<bar> - 52)" using s unfolding s_def e_def .
  show "2 ^ 52 \<le> \<bar>x\<bar> / 2 powi (ilog2 \<bar>x\<bar> - 52)" using 3 unfolding s_def e_def .
  show "\<bar>x\<bar> / 2 powi (ilog2 \<bar>x\<bar> - 52) < 2 ^ 53" using 4 unfolding s_def e_def .
  show "2 powi (ilog2 \<bar>x\<bar>) \<le> \<bar>x\<bar>" using lo unfolding e_def .
  show "\<bar>x\<bar> < 2 powi (ilog2 \<bar>x\<bar> + 1)" using hi unfolding e_def .
qed

lemma fl_0 [simp]: "fl 0 = 0"
  by (simp add: fl_def)

lemma fl_minus: "fl (- x) = - fl x"
  by (simp add: fl_def Let_def rne_minus)

lemma fl_eval:
  assumes "2 powi (k + 52) \<le> \<bar>x\<bar>" and "\<bar>x\<bar> < 2 powi (k + 53)"
    and "\<bar>x / 2 powi k - of_int n\<bar> < 1 / 2"
  shows "fl x = of_int n * 2 powi k"
proof -
  have "0 < \<bar>x\<bar>" using assms(1) zero_less_power_int[of "2::real" "k + 52"] by linarith
  then have nz: "x \<noteq> 0" by simp
  have "k + 53 = (k + 52) + 1" by simp
  with assms(2) have "\<bar>x\<bar> < 2 powi ((k + 52) + 1)" by simp
  with assms(1) have e: "ilog2 \<bar>x\<bar> = k + 52" by (rule ilog2_unique)
  have "rne (x / 2 powi k) = n" using assms(3) by (rule rne_eqI)
  then show ?thesis using nz by (simp add: fl_def Let_def e)
qed

lemma fl_abs_error:
  assumes "x \<noteq> 0"
  shows "\<bar>fl x - x\<bar> \<le> 2 powi (ilog2 \<bar>x\<bar> - 53)"
proof -
  define s where "s = (2::real) powi (ilog2 \<bar>x\<bar> - 52)"
  note sh = fl_shape[OF assms, folded s_def]
  have "fl x - x = (of_int (rne (x / s)) - x / s) * s"
    using sh(1,2) by (simp add: field_simps)
  then have "\<bar>fl x - x\<bar> = \<bar>of_int (rne (x / s)) - x / s\<bar> * s"
    using sh(2) by (simp add: abs_mult)
  also have "\<dots> \<le> 1 / 2 * s"
    using rne_half[of "x / s"] sh(2) by (intro mult_right_mono) simp_all
  also have "\<dots> = 2 powi (ilog2 \<bar>x\<bar> - 53)"
  proof -
    have "s = 2 powi (ilog2 \<bar>x\<bar> - 53) * 2"
      unfolding s_def using pow2_add[of "ilog2 \<bar>x\<bar> - 53" 1] by simp
    then show ?thesis by simp
  qed
  finally show ?thesis .
qed

lemma fl_error: "\<bar>fl x - x\<bar> \<le> 2 powi (- 53) * \<bar>x\<bar>"
proof (cases "x = 0")
  case True
  then show ?thesis by simp
next
  case False
  note sh = fl_shape[OF False]
  have "\<bar>fl x - x\<bar> \<le> 2 powi (- 53) * 2 powi ilog2 \<bar>x\<bar>"
    using fl_abs_error[OF False] by (simp only: pow2_split53)
  also have "\<dots> \<le> 2 powi (- 53) * \<bar>x\<bar>"
    using sh(5) by (intro mult_left_mono) simp_all
  finally show ?thesis .
qed

lemma rne_bounds:
  assumes "2 ^ 52 \<le> t" and "t < 2 ^ 53"
  shows "2 ^ 52 \<le> rne t" and "rne t \<le> 2 ^ 53"
proof -
  have "(2 ^ 52 :: real) = of_int (2 ^ 52)" by simp
  with assms(1) have "(2 ^ 52 :: int) \<le> \<lfloor>t\<rfloor>" by (simp only: le_floor_iff)
  moreover have "\<lfloor>t\<rfloor> \<le> rne t" using rne_cases[of t] by auto
  ultimately show "2 ^ 52 \<le> rne t" by linarith
  have "(2 ^ 53 :: real) = of_int (2 ^ 53)" by simp
  with assms(2) have "\<lfloor>t\<rfloor> < (2 ^ 53 :: int)" by (simp only: floor_less_iff)
  moreover have "rne t \<le> \<lfloor>t\<rfloor> + 1" using rne_cases[of t] by auto
  ultimately show "rne t \<le> 2 ^ 53" by linarith
qed

text \<open>A positive argument rounds into the closed binade of the argument.\<close>

lemma fl_pos_range:
  assumes "0 < x"
  shows "2 powi ilog2 x \<le> fl x" and "fl x \<le> 2 powi (ilog2 x + 1)"
proof -
  define s where "s = (2::real) powi (ilog2 x - 52)"
  have nz: "x \<noteq> 0" and ax: "\<bar>x\<bar> = x" using assms by simp_all
  note sh = fl_shape[OF nz, unfolded ax, folded s_def]
  note b = rne_bounds[OF sh(3,4)]
  have "2 powi ilog2 x = 2 ^ 52 * s"
    using pow2_shift[of "ilog2 x"] sh(2) unfolding s_def by (simp add: field_simps)
  also have "\<dots> \<le> of_int (rne (x / s)) * s"
  proof (intro mult_right_mono)
    have "(of_int (2 ^ 52) :: real) \<le> of_int (rne (x / s))" using b(1) by (simp only: of_int_le_iff)
    then show "(2 ^ 52 :: real) \<le> of_int (rne (x / s))" by simp
    show "0 \<le> s" using sh(2) by simp
  qed
  finally show "2 powi ilog2 x \<le> fl x" using sh(1) by simp
  have "fl x = of_int (rne (x / s)) * s" by (rule sh(1))
  also have "\<dots> \<le> 2 ^ 53 * s"
  proof (intro mult_right_mono)
    have "(of_int (rne (x / s)) :: real) \<le> of_int (2 ^ 53)" using b(2) by (simp only: of_int_le_iff)
    then show "(of_int (rne (x / s)) :: real) \<le> 2 ^ 53" by simp
    show "0 \<le> s" using sh(2) by simp
  qed
  also have "\<dots> = 2 powi (ilog2 x + 1)"
    using pow2_shift1[of "ilog2 x"] sh(2) unfolding s_def by (simp add: field_simps)
  finally show "fl x \<le> 2 powi (ilog2 x + 1)" .
qed

lemma fl_pos: "0 < x \<Longrightarrow> 0 < fl x"
  using fl_pos_range(1)[of x] zero_less_power_int[of "2::real" "ilog2 x"] by linarith

lemma is_double_0 [simp]: "is_double 0"
  by (simp add: is_double_def)

lemma is_double_minus: "is_double (- x) = is_double x"
  by (auto simp add: is_double_def fl_minus)

text \<open>A number with a mantissa of at most 53 bits is a double.\<close>

lemma is_double_mantissa:
  assumes "\<bar>m\<bar> < 2 ^ 53"
  shows "is_double (of_int m * 2 powi k)"
proof -
  have pos: "is_double (of_int n * 2 powi k)" if n: "0 < n" "n < 2 ^ 53" for n :: int
  proof -
    define x where "x = (of_int n :: real) * 2 powi k"
    have x: "0 < x" using n(1) by (simp add: x_def)
    then have nz: "x \<noteq> 0" and ax: "\<bar>x\<bar> = x" by simp_all
    define e where "e = ilog2 x"
    define s where "s = (2::real) powi (e - 52)"
    note sh = fl_shape[OF nz, unfolded ax, folded e_def s_def]
    have "(of_int n :: real) < of_int (2 ^ 53)" using n(2) by (simp only: of_int_less_iff)
    then have "x < 2 ^ 53 * 2 powi k" unfolding x_def by (intro mult_strict_right_mono) simp_all
    also have "\<dots> = 2 powi (53 + k)" using pow2_add[of 53 k] by simp
    finally have "2 powi e < (2::real) powi (53 + k)" using sh(5) by linarith
    then have "e < 53 + k" by (rule pow2_less_D)
    then have j: "0 \<le> k - e + 52" by simp
    have "x / s = of_int n * (2 powi k / 2 powi (e - 52))" by (simp add: x_def s_def)
    also have "2 powi k / 2 powi (e - 52) = (2::real) powi (k - e + 52)"
      using pow2_add[of "e - 52" "k - e + 52"] by (simp add: field_simps)
    also have "\<dots> = of_int (2 ^ nat (k - e + 52))"
      using j by (simp add: power_int_def)
    finally have "x / s = of_int (n * 2 ^ nat (k - e + 52))" by simp
    then have "rne (x / s) = n * 2 ^ nat (k - e + 52)" by (simp only: rne_of_int)
    then have "of_int (rne (x / s)) = x / s"
      using \<open>x / s = of_int (n * 2 ^ nat (k - e + 52))\<close> by simp
    moreover have "0 < s" by (simp add: s_def)
    ultimately have "of_int (rne (x / s)) * s = x" by simp
    then have "fl x = x" using sh(1) by (simp add: s_def)
    then show ?thesis by (simp add: is_double_def x_def)
  qed
  consider "m = 0" | "0 < m" | "m < 0" by linarith
  then show ?thesis
  proof cases
    case 1
    then show ?thesis by simp
  next
    case 2
    with assms pos[of m] show ?thesis by simp
  next
    case 3
    with assms have "is_double (of_int (- m) * 2 powi k)" by (intro pos) simp_all
    then have "is_double (- (of_int m * 2 powi k))" by simp
    then show ?thesis by (simp only: is_double_minus)
  qed
qed

lemma is_double_pow2: "is_double (2 powi k)"
  using is_double_mantissa[of 1 k] by simp

lemma fl_idem: "fl (fl x) = fl x"
proof -
  have pos: "fl (fl x) = fl x" if x: "0 < x" for x
  proof -
    define s where "s = (2::real) powi (ilog2 x - 52)"
    have nz: "x \<noteq> 0" and ax: "\<bar>x\<bar> = x" using x by simp_all
    note sh = fl_shape[OF nz, unfolded ax, folded s_def]
    note b = rne_bounds[OF sh(3,4)]
    show ?thesis
    proof (cases "rne (x / s) = 2 ^ 53")
      case True
      then have "fl x = 2 ^ 53 * s" using sh(1) by simp
      also have "\<dots> = 2 powi (ilog2 x + 1)"
        using pow2_shift1[of "ilog2 x"] sh(2) unfolding s_def by (simp add: field_simps)
      finally show ?thesis using is_double_pow2[of "ilog2 x + 1"] by (simp add: is_double_def)
    next
      case False
      with b have "\<bar>rne (x / s)\<bar> < 2 ^ 53" by simp
      from is_double_mantissa[OF this, of "ilog2 x - 52"] show ?thesis
        using sh(1) by (simp add: is_double_def s_def)
    qed
  qed
  consider "x = 0" | "0 < x" | "x < 0" by linarith
  then show ?thesis
  proof cases
    case 1
    then show ?thesis by simp
  next
    case 2
    then show ?thesis by (rule pos)
  next
    case 3
    then have "fl (fl (- x)) = fl (- x)" by (intro pos) simp
    then show ?thesis by (simp add: fl_minus)
  qed
qed

lemma is_double_fl [simp]: "is_double (fl x)"
  by (simp add: is_double_def fl_idem)

lemma fl_nearest_pos:
  assumes x: "0 < x" and d: "is_double d"
  shows "\<bar>fl x - x\<bar> \<le> \<bar>d - x\<bar>"
proof -
  define e where "e = ilog2 x"
  define s where "s = (2::real) powi (e - 52)"
  define t where "t = x / s"
  have nz: "x \<noteq> 0" and ax: "\<bar>x\<bar> = x" using x by simp_all
  have s: "0 < s" by (simp add: s_def)
  have flx: "fl x = of_int (rne t) * s"
    using fl_shape(1)[OF nz] by (simp add: ax e_def s_def t_def)
  have lo: "2 powi e \<le> x" and hi: "x < 2 powi (e + 1)"
    using ilog2_bounds[OF x] by (simp_all add: e_def)
  have xs: "t * s = x" using s by (simp add: t_def)
  have p52: "2 powi e = 2 ^ 52 * s"
    using pow2_shift[of e] s unfolding s_def by (simp add: field_simps)
  have p53: "2 powi (e + 1) = 2 ^ 53 * s"
    using pow2_shift1[of e] s unfolding s_def by (simp add: field_simps)
  have err: "\<bar>fl x - x\<bar> = \<bar>of_int (rne t) - t\<bar> * s"
  proof -
    have "fl x - x = of_int (rne t) * s - t * s" by (simp only: flx xs)
    then have "fl x - x = (of_int (rne t) - t) * s" by (simp add: algebra_simps)
    then show ?thesis using s by (simp add: abs_mult)
  qed
  have near: "\<bar>fl x - x\<bar> \<le> \<bar>of_int k * s - x\<bar>" for k :: int
  proof -
    have "of_int k * s - x = of_int k * s - t * s" by (simp only: xs)
    then have "of_int k * s - x = (of_int k - t) * s" by (simp add: algebra_simps)
    then have "\<bar>of_int k * s - x\<bar> = \<bar>of_int k - t\<bar> * s" using s by (simp add: abs_mult)
    moreover have "\<bar>of_int (rne t) - t\<bar> * s \<le> \<bar>of_int k - t\<bar> * s"
      using rne_nearest[of t k] s by (intro mult_right_mono) simp_all
    ultimately show ?thesis using err by simp
  qed
  have near52: "\<bar>fl x - x\<bar> \<le> x - 2 powi e"
    using near[of "2 ^ 52"] lo unfolding p52 by simp
  have near53: "\<bar>fl x - x\<bar> \<le> 2 powi (e + 1) - x"
    using near[of "2 ^ 53"] hi unfolding p53 by simp
  show ?thesis
  proof (cases "0 < d")
    case False
    have "0 < (2::real) powi e" by simp
    with near52 have "\<bar>fl x - x\<bar> \<le> x" by linarith
    with False x show ?thesis by linarith
  next
    case True
    define e' where "e' = ilog2 d"
    have lo': "2 powi e' \<le> d" and hi': "d < 2 powi (e' + 1)"
      using ilog2_bounds[OF True] by (simp_all add: e'_def)
    consider "e' < e" | "e < e'" | "e' = e" by linarith
    then show ?thesis
    proof cases
      case 1
      then have "(2::real) powi (e' + 1) \<le> 2 powi e" by (intro pow2_mono) simp
      with hi' have "d < 2 powi e" by linarith
      with near52 lo show ?thesis by linarith
    next
      case 2
      then have "(2::real) powi (e + 1) \<le> 2 powi e'" by (intro pow2_mono) simp
      with lo' have "2 powi (e + 1) \<le> d" by linarith
      with near53 hi show ?thesis by linarith
    next
      case 3
      have dnz: "d \<noteq> 0" and ad: "\<bar>d\<bar> = d" using True by simp_all
      have "fl d = of_int (rne (d / s)) * s"
        using fl_shape(1)[OF dnz] 3 by (simp add: ad e'_def s_def)
      with d have "d = of_int (rne (d / s)) * s" by (simp add: is_double_def)
      with near[of "rne (d / s)"] show ?thesis by simp
    qed
  qed
qed

text \<open>The rounded value is a double nearest to the argument.\<close>

lemma fl_nearest:
  assumes "is_double d"
  shows "\<bar>fl x - x\<bar> \<le> \<bar>d - x\<bar>"
proof -
  consider "x = 0" | "0 < x" | "x < 0" by linarith
  then show ?thesis
  proof cases
    case 1
    then show ?thesis by simp
  next
    case 2
    then show ?thesis using assms by (rule fl_nearest_pos)
  next
    case 3
    then have "0 < - x" by simp
    moreover have "is_double (- d)" using assms by (simp only: is_double_minus)
    ultimately have "\<bar>fl (- x) - (- x)\<bar> \<le> \<bar>- d - (- x)\<bar>" by (rule fl_nearest_pos)
    then show ?thesis by (simp add: fl_minus abs_minus_commute)
  qed
qed

lemma fl_mono:
  assumes "x \<le> y"
  shows "fl x \<le> fl y"
proof (rule ccontr)
  assume "\<not> fl x \<le> fl y"
  then have lt: "fl y < fl x" by simp
  have 1: "\<bar>fl x - x\<bar> \<le> \<bar>fl y - x\<bar>" by (rule fl_nearest) simp
  have 2: "\<bar>fl y - y\<bar> \<le> \<bar>fl x - y\<bar>" by (rule fl_nearest) simp
  from 1 lt have "fl x + fl y \<le> 2 * x" by linarith
  moreover from 2 lt have "2 * y \<le> fl x + fl y" by linarith
  ultimately have "x = y" using assms by linarith
  with lt show False by simp
qed

lemma is_double_le_fl: "is_double d \<Longrightarrow> d \<le> x \<Longrightarrow> d \<le> fl x"
  using fl_mono[of d x] by (simp add: is_double_def)

lemma fl_le_is_double: "is_double d \<Longrightarrow> x \<le> d \<Longrightarrow> fl x \<le> d"
  using fl_mono[of x d] by (simp add: is_double_def)

text \<open>Adding a non-negative number to a double and rounding moves up by at most twice the number.\<close>

lemma fl_add_upper:
  assumes "is_double d" and "0 \<le> c"
  shows "fl (d + c) \<le> d + 2 * c"
  using fl_nearest[OF assms(1), of "d + c"] assms(2) by linarith

lemma fl_error_rel: "\<bar>fl x - x\<bar> \<le> 2 powi (- 53) * \<bar>fl x\<bar>"
proof (cases "x = 0")
  case True
  then show ?thesis by simp
next
  case False
  have pos: "\<bar>fl x - x\<bar> \<le> 2 powi (- 53) * \<bar>fl x\<bar>" if x: "0 < x" for x
  proof -
    have nz: "x \<noteq> 0" and ax: "\<bar>x\<bar> = x" using x by simp_all
    have "\<bar>fl x - x\<bar> \<le> 2 powi (- 53) * 2 powi ilog2 x"
      using fl_abs_error[OF nz] by (simp only: ax pow2_split53)
    also have "\<dots> \<le> 2 powi (- 53) * fl x"
      using fl_pos_range(1)[OF x] by (intro mult_left_mono) simp_all
    finally show ?thesis using fl_pos[OF x] by simp
  qed
  show ?thesis
  proof (cases "0 < x")
    case True
    then show ?thesis by (rule pos)
  next
    case neg: False
    with False have "0 < - x" by simp
    from pos[OF this] show ?thesis by (simp add: fl_minus abs_minus_commute)
  qed
qed

lemma eps53: "(2::real) powi (- 53) = 1 / 2 ^ 53"
  by (simp add: power_int_minus field_simps)

lemma fl_1 [simp]: "fl 1 = 1"
  using is_double_pow2[of 0] by (simp add: is_double_def)

lemma fl_eq_0_iff [simp]: "fl x = 0 \<longleftrightarrow> x = 0"
proof
  assume "fl x = 0"
  with fl_error_rel[of x] show "x = 0" by simp
qed simp

lemma fl_abs_mono: "\<bar>x\<bar> \<le> \<bar>y\<bar> \<Longrightarrow> \<bar>fl x\<bar> \<le> \<bar>fl y\<bar>"
proof -
  have a: "\<bar>fl t\<bar> = fl \<bar>t\<bar>" for t
  proof (cases "0 \<le> t")
    case True
    then have "0 \<le> fl t" using fl_mono[of 0 t] by simp
    with True show ?thesis by simp
  next
    case False
    then have "0 \<le> fl (- t)" using fl_mono[of 0 "- t"] by simp
    with False show ?thesis by (simp add: fl_minus)
  qed
  assume "\<bar>x\<bar> \<le> \<bar>y\<bar>"
  then show ?thesis unfolding a by (rule fl_mono)
qed

lemma in_rangeI: "1 / 2 ^ 60 \<le> \<bar>x\<bar> \<Longrightarrow> \<bar>x\<bar> \<le> 2 ^ 60 \<Longrightarrow> in_range x"
proof -
  assume a: "1 / 2 ^ 60 \<le> \<bar>x\<bar>" and b: "\<bar>x\<bar> \<le> 2 ^ 60"
  have "(2::real) powi (- 1022) \<le> 2 powi (- 60)" by (intro pow2_mono) simp
  also have "\<dots> = 1 / 2 ^ 60" by (simp add: power_int_minus field_simps)
  finally have l: "2 powi (- 1022) \<le> \<bar>x\<bar>" using a by simp
  have "(2::real) powi 60 < 2 powi 1023" by (intro power_int_strict_increasing) simp_all
  then have "\<bar>x\<bar> < 2 powi 1023" using b by simp
  with l show ?thesis by (simp add: in_range_def)
qed

lemma in_range_0 [simp]: "in_range 0"
  by (simp add: in_range_def)

subsection \<open>Rounded values of concrete numbers\<close>

text \<open>
  A rounded value is checked by exhibiting its significand \<open>n\<close> and exponent \<open>k\<close>: the
  argument lies in \<open>[2^(k+52), 2^(k+53))\<close> and, scaled by \<open>2^-k\<close>, is nearer to \<open>n\<close> than one
  half, or lies half way between \<open>m\<close> and \<open>m + 1\<close>, of which \<open>n\<close> is the even one.
\<close>

lemma fl_evalI:
  assumes "v = of_int n * 2 powi k"
    and "2 powi (k + 52) \<le> \<bar>x\<bar>" and "\<bar>x\<bar> < 2 powi (k + 53)"
    and "\<bar>x / 2 powi k - of_int n\<bar> < 1 / 2"
  shows "fl x = v"
  using fl_eval[OF assms(2,3,4)] assms(1) by simp

lemma fl_evalI_tie:
  assumes "v = of_int n * 2 powi k"
    and "2 powi (k + 52) \<le> \<bar>x\<bar>" and "\<bar>x\<bar> < 2 powi (k + 53)"
    and "x / 2 powi k - of_int m = 1 / 2" and "n = (if even m then m else m + 1)"
  shows "fl x = v"
proof -
  have "0 < \<bar>x\<bar>" using assms(2) zero_less_power_int[of "2::real" "k + 52"] by linarith
  then have nz: "x \<noteq> 0" by simp
  have "k + 53 = (k + 52) + 1" by simp
  with assms(3) have "\<bar>x\<bar> < 2 powi ((k + 52) + 1)" by simp
  with assms(2) have e: "ilog2 \<bar>x\<bar> = k + 52" by (rule ilog2_unique)
  have "rne (x / 2 powi k) = n" using rne_tie[OF assms(4)] assms(5) by simp
  then show ?thesis using nz assms(1) by (simp add: fl_def Let_def e)
qed

lemma fl_val_0: "fl (1 / 1000000000) = 4835703278458517 / 4835703278458516698824704"
  by (rule fl_evalI[of _ 4835703278458517 "- 82"]) simp_all

lemma fl_val_1: "fl (48357032784585171823950318458517 / 4835703278458516698824704) = 5368709120000001 / 536870912"
  by (rule fl_evalI[of _ 5368709120000001 "- 29"]) simp_all

lemma fl_val_2: "fl (1 / 536870912) = 1 / 536870912"
  by (rule fl_evalI[of _ 4503599627370496 "- 81"]) simp_all

lemma fl_val_3: "fl 10001000 = 10001000"
  by (rule fl_evalI[of _ 5369245990912000 "- 29"]) simp_all

lemma fl_val_4: "fl 1000 = 1000"
  by (rule fl_evalI[of _ 8796093022208000 "- 43"]) simp_all

lemma fl_val_5: "fl (1 / 49) = 5882252574524729 / 288230376151711744"
  by (rule fl_evalI[of _ 5882252574524729 "- 58"]) simp_all

lemma fl_val_6: "fl (288230376151711744 / 5882252574524729) = 6896136929411073 / 140737488355328"
  by (rule fl_evalI[of _ 6896136929411073 "- 47"]) simp_all

lemma fl_val_7: "fl (1 / 10000000000) = 7737125245533627 / 77371252455336267181195264"
  by (rule fl_evalI[of _ 7737125245533627 "- 86"]) simp_all

lemma fl_val_8: "fl (1 / 100) = 5764607523034235 / 576460752303423488"
  by (rule fl_evalI[of _ 5764607523034235 "- 59"]) simp_all

lemma fl_val_9: "fl (5764607523034235 / 576460752303423488) = 5764607523034235 / 576460752303423488"
  by (rule fl_evalI[of _ 5764607523034235 "- 59"]) simp_all

lemma fl_val_10: "fl 150 = 150"
  by (rule fl_evalI[of _ 5277655813324800 "- 45"]) simp_all

lemma fl_val_11: "fl (432345564227567625 / 288230376151711744) = 3 / 2"
  by (rule fl_evalI[of _ 6755399441055744 "- 52"]) simp_all

lemma fl_val_12: "fl (1 / 2) = 1 / 2"
  by (rule fl_evalI[of _ 4503599627370496 "- 53"]) simp_all

lemma fl_val_13: "fl (5764607523034235 / 1152921504606846976) = 5764607523034235 / 1152921504606846976"
  by (rule fl_evalI[of _ 5764607523034235 "- 60"]) simp_all

lemma fl_val_14: "fl 200 = 200"
  by (rule fl_evalI[of _ 7036874417766400 "- 45"]) simp_all

lemma fl_val_15: "fl 100 = 100"
  by (rule fl_evalI[of _ 7036874417766400 "- 46"]) simp_all

lemma fl_val_16: "fl 50 = 50"
  by (rule fl_evalI[of _ 7036874417766400 "- 47"]) simp_all

lemma fl_val_17: "fl (144115188075855875 / 144115188075855872) = 1"
  by (rule fl_evalI[of _ 4503599627370496 "- 52"]) simp_all

lemma fl_val_18: "fl (3 / 2) = 3 / 2"
  by (rule fl_evalI[of _ 6755399441055744 "- 52"]) simp_all

lemma fl_val_19: "fl (100 / 3) = 4691249611844267 / 140737488355328"
  by (rule fl_evalI[of _ 4691249611844267 "- 47"]) simp_all

lemma fl_val_20: "fl (25801872865143467 / 140737488355328) = 6450468216285867 / 35184372088832"
  by (rule fl_evalI[of _ 6450468216285867 "- 45"]) simp_all

lemma fl_val_21: "fl (27043212804868896383082129480745 / 162259276829213363391578010288128) = 3002399751580331 / 18014398509481984"
  by (rule fl_evalI[of _ 6004799503160662 "- 55"]) simp_all

lemma fl_val_22: "fl (12009599006321323 / 18014398509481984) = 3002399751580331 / 4503599627370496"
  by (rule fl_evalI_tie[of _ 6004799503160662 "- 53" _ 6004799503160661]) simp_all

lemma fl_val_23: "fl (2 / 3) = 6004799503160661 / 9007199254740992"
  by (rule fl_evalI[of _ 6004799503160661 "- 53"]) simp_all

lemma fl_val_24: "fl (4835703278458517 / 4835703278458516698824704) = 4835703278458517 / 4835703278458516698824704"
  by (rule fl_evalI[of _ 4835703278458517 "- 82"]) simp_all

lemma fl_val_25: "fl (25 / 2) = 25 / 2"
  by (rule fl_evalI[of _ 7036874417766400 "- 49"]) simp_all

lemma fl_val_26: "fl (1 / 8) = 1 / 8"
  by (rule fl_evalI[of _ 4503599627370496 "- 55"]) simp_all

lemma fl_val_27: "fl (1 / 16) = 1 / 16"
  by (rule fl_evalI[of _ 4503599627370496 "- 56"]) simp_all

lemma fl_val_28: "fl (725355491773613208102164117 / 4835703278458516698824704) = 329853488334999 / 2199023255552"
  by (rule fl_evalI[of _ 5277655813359984 "- 45"]) simp_all

lemma fl_val_29: "fl (75 / 8) = 75 / 8"
  by (rule fl_evalI[of _ 5277655813324800 "- 49"]) simp_all

lemma fl_val_30: "fl (25 / 8) = 25 / 8"
  by (rule fl_evalI[of _ 7036874417766400 "- 51"]) simp_all

lemma fl_val_31: "fl (1 / 32) = 1 / 32"
  by (rule fl_evalI[of _ 4503599627370496 "- 57"]) simp_all

lemma fl_val_32: "fl (3 / 32) = 3 / 32"
  by (rule fl_evalI[of _ 6755399441055744 "- 56"]) simp_all

lemma fl_val_33: "fl 1150 = 1150"
  by (rule fl_evalI[of _ 5057753487769600 "- 42"]) simp_all

lemma fl_val_34: "fl (375 / 4) = 375 / 4"
  by (rule fl_evalI[of _ 6597069766656000 "- 46"]) simp_all

lemma fl_val_35: "fl (725 / 8) = 725 / 8"
  by (rule fl_evalI[of _ 6377167441100800 "- 46"]) simp_all

lemma fl_val_36: "fl (25 / 4) = 25 / 4"
  by (rule fl_evalI[of _ 7036874417766400 "- 50"]) simp_all

lemma fl_val_37: "fl (29 / 4) = 29 / 4"
  by (rule fl_evalI[of _ 8162774324609024 "- 50"]) simp_all

lemma fl_val_38: "fl (29 / 400) = 5224175567749775 / 72057594037927936"
  by (rule fl_evalI[of _ 5224175567749775 "- 56"]) simp_all

lemma fl_val_39: "fl (2972375754064527 / 72057594037927936) = 2972375754064527 / 72057594037927936"
  by (rule fl_evalI[of _ 5944751508129054 "- 57"]) simp_all

lemma fl_val_40: "fl (967140655696539043043399317 / 4835703278458516698824704) = 439804651112599 / 2199023255552"
  by (rule fl_evalI[of _ 7036874417801584 "- 45"]) simp_all

lemma fl_val_41: "fl (74309393851613175 / 9007199254740992) = 4644337115725823 / 562949953421312"
  by (rule fl_evalI[of _ 4644337115725823 "- 49"]) simp_all

lemma fl_val_42: "fl (562949953421311 / 562949953421312) = 562949953421311 / 562949953421312"
  by (rule fl_evalI[of _ 9007199254740976 "- 53"]) simp_all

lemma fl_val_43: "fl (562949953421311 / 56294995342131200) = 5764607523034225 / 576460752303423488"
  by (rule fl_evalI[of _ 5764607523034225 "- 59"]) simp_all

lemma fl_val_44: "fl (18014398509481991 / 576460752303423488) = 2251799813685249 / 72057594037927936"
  by (rule fl_evalI[of _ 4503599627370498 "- 57"]) simp_all

lemma fl_val_45: "fl 1200 = 1200"
  by (rule fl_evalI[of _ 5277655813324800 "- 42"]) simp_all

lemma fl_val_46: "fl (281474976710656125 / 9007199254740992) = 2199023255552001 / 70368744177664"
  by (rule fl_evalI[of _ 8796093022208004 "- 48"]) simp_all

lemma fl_val_47: "fl (18155135997837319 / 562949953421312) = 2269391999729665 / 70368744177664"
  by (rule fl_evalI[of _ 4538783999459330 "- 47"]) simp_all

lemmas fl_vals = fl_val_0 fl_val_1 fl_val_2 fl_val_3 fl_val_4 fl_val_5 fl_val_6 fl_val_7
  fl_val_8 fl_val_9 fl_val_10 fl_val_11 fl_val_12 fl_val_13 fl_val_14 fl_val_15 fl_val_16
  fl_val_17 fl_val_18 fl_val_19 fl_val_20 fl_val_21 fl_val_22 fl_val_23 fl_val_24 fl_val_25
  fl_val_26 fl_val_27 fl_val_28 fl_val_29 fl_val_30 fl_val_31 fl_val_32 fl_val_33 fl_val_34
  fl_val_35 fl_val_36 fl_val_37 fl_val_38 fl_val_39 fl_val_40 fl_val_41 fl_val_42 fl_val_43
  fl_val_44 fl_val_45 fl_val_46 fl_val_47

text \<open>
  The rounded tolerance constant \<open>1e-9\<close> and the rounded skip threshold of a lens.
\<close>

lemma c9_nonneg: "0 \<le> fl (1 / 10 ^ 9)"
  using fl_mono[of 0 "1 / 10 ^ 9"] by simp

lemma c9_value: "fl (1 / 10 ^ 9) = 4835703278458517 / 2 ^ 82"
  by (rule fl_evalI[of _ 4835703278458517 "-82"]) simp_all

lemma c9_le: "2 * fl (1 / 10 ^ 9) \<le> 21 / 10 ^ 10"
  unfolding c9_value by simp

lemma is_double_far: "is_double (10 ^ 7)" "is_double (10 ^ 7 + 1 / 2 ^ 29)"
  using is_double_mantissa[of 10000000 0] is_double_mantissa[of 5368709120000001 "- 29"]
  by simp_all

lemma is_double_small: "is_double 150" "is_double 200" "is_double (- 200)"
  using is_double_mantissa[of 150 0] is_double_mantissa[of 200 0] is_double_mantissa[of "- 200" 0]
  by simp_all

section \<open>The engine with rounded arithmetic\<close>

lemma fp_propagate_active [simp]: "ray_active (fp_propagate rnd r t) = ray_active r"
  by (simp add: fp_propagate_def Let_def)

lemma fp_refract_active [simp]: "ray_active (fp_refract rnd r f) = ray_active r"
  by (simp add: fp_refract_def)

lemma fp_refract_fields [simp]:
  "ray_path (fp_refract rnd r f) = ray_path r" "ray_z (fp_refract rnd r f) = ray_z r"
  "ray_y (fp_refract rnd r f) = ray_y r"
  by (simp_all add: fp_refract_def)

lemma fp_propagate_fields:
  "ray_active r \<Longrightarrow> ray_z (fp_propagate rnd r t) = t"
  "ray_active r \<Longrightarrow>
     ray_path (fp_propagate rnd r t) = ray_path r @ [(t, ray_y (fp_propagate rnd r t))]"
  "ray_u (fp_propagate rnd r t) = ray_u r"
  by (simp_all add: fp_propagate_def Let_def)

lemma fp_loop_path_z:
  "ray_active r \<Longrightarrow>
     map fst (ray_path (fp_traceRay_loop rnd ls r)) =
       map fst (ray_path r) @ map lens_z (fp_traceRay_visited rnd ls r)"
proof (induction ls arbitrary: r)
  case Nil
  then show ?case by simp
next
  case (Cons l ls)
  then show ?case by (simp add: Let_def fp_propagate_fields)
qed

lemma fp_traceRay_fst: "fst (fp_traceRay rnd ls r) = sortLenses ls"
  by (simp add: fp_traceRay_def Let_def)

lemma fp_traceRay_snd:
  "snd (fp_traceRay rnd ls r) =
     (if ray_active (fp_traceRay_loop rnd (sortLenses ls) r)
      then fp_propagate rnd (fp_traceRay_loop rnd (sortLenses ls) r)
             (rnd ((if sortLenses ls = [] then ray_z (fp_traceRay_loop rnd (sortLenses ls) r)
                    else lens_z (last (sortLenses ls))) + 1000))
      else fp_traceRay_loop rnd (sortLenses ls) r)"
  by (simp add: fp_traceRay_def Let_def last_conv_nth)

lemma fp_traceRay_path_z:
  assumes "ray_active r"
  shows "map fst (ray_path (snd (fp_traceRay rnd ls r))) =
           map fst (ray_path r) @ map lens_z (fp_traceRay_visited rnd (sortLenses ls) r)
           @ (if ray_active (snd (fp_traceRay rnd ls r))
              then [rnd ((if sortLenses ls = [] then ray_z r
                          else lens_z (last (sortLenses ls))) + 1000)]
              else [])"
proof (cases "ray_active (fp_traceRay_loop rnd (sortLenses ls) r)")
  case True
  then show ?thesis
    using fp_loop_path_z[OF assms, of rnd "sortLenses ls"]
    by (auto simp add: fp_traceRay_snd fp_propagate_fields)
next
  case False
  then show ?thesis
    using fp_loop_path_z[OF assms, of rnd "sortLenses ls"]
    by (simp add: fp_traceRay_snd)
qed

lemma fp_propagate_y:
  "ray_active r \<Longrightarrow>
     ray_y (fp_propagate rnd r t) = rnd (ray_y r + rnd (ray_u r * rnd (t - ray_z r)))"
  by (simp add: fp_propagate_def Let_def)

lemma fp_refract_u:
  "ray_active r \<Longrightarrow> ray_u (fp_refract rnd r f) = rnd (ray_u r - rnd (ray_y r / f))"
  by (simp add: fp_refract_def)

lemma fp_loop_inactive: "\<not> ray_active r \<Longrightarrow> fp_traceRay_loop rnd ls r = r"
  by (induction ls) (simp_all add: inactive_noop fp_propagate_def fp_refract_def Let_def)

text \<open>
  With the identity as rounding function the engine is the engine over the exact reals.
\<close>

lemma fp_csm_loop_exact:
  "fp_calculateSystemMatrix_loop (\<lambda>x. x) ls i m = calculateSystemMatrix_loop ls i m"
proof (induction "length ls - i" arbitrary: i m)
  case 0
  then show ?case
    by (subst fp_calculateSystemMatrix_loop.simps, subst calculateSystemMatrix_loop.simps) simp
next
  case (Suc k)
  then have lt: "i < length ls" by simp
  have "k = length ls - Suc i" using Suc by simp
  note ih = Suc(1)[OF this]
  show ?case
    by (subst fp_calculateSystemMatrix_loop.simps, subst calculateSystemMatrix_loop.simps)
       (simp add: lt ih Let_def)
qed

lemma fp_csm_exact: "fp_calculateSystemMatrix (\<lambda>x. x) ls = calculateSystemMatrix ls"
  by (simp add: fp_calculateSystemMatrix_def calculateSystemMatrix_def fp_csm_loop_exact)

lemma fp_image_exact: "fp_calculateImage (\<lambda>x. x) ls oz = calculateImage ls oz"
  by (simp add: fp_calculateImage_def calculateImage_def fp_csm_exact)

lemma fp_cardinal_exact: "fp_calculateCardinalPoints (\<lambda>x. x) ls = calculateCardinalPoints ls"
proof (cases "calculateSystemMatrix ls")
  case None
  then show ?thesis
    by (simp add: fp_calculateCardinalPoints_def calculateCardinalPoints_def fp_csm_exact)
next
  case (Some m)
  then show ?thesis
    by (simp add: fp_calculateCardinalPoints_def calculateCardinalPoints_def fp_csm_exact Let_def)
qed

lemma fp_propagate_exact: "fp_propagate (\<lambda>x. x) r t = propagate r t"
  by (simp add: fp_propagate_def propagate_def)

lemma fp_refract_exact: "fp_refract (\<lambda>x. x) r f = refract r f"
  by (simp add: fp_refract_def refract_def)

lemma fp_loop_exact: "fp_traceRay_loop (\<lambda>x. x) ls r = traceRay_loop ls r"
  by (induction ls arbitrary: r) (simp_all add: fp_propagate_exact fp_refract_exact Let_def)

lemma fp_traceRay_exact: "fp_traceRay (\<lambda>x. x) ls r = traceRay ls r"
  by (simp add: fp_traceRay_def traceRay_def fp_loop_exact fp_propagate_exact Let_def)

text \<open>
  The fields of the example lenses.
\<close>

lemma example_fields:
  "lens_f example_lens1 = 100" "lens_z example_lens1 = 0" "lens_h example_lens1 = 50"
  "lens_f example_lens2 = 100" "lens_z example_lens2 = 150" "lens_h example_lens2 = 50"
  by (simp_all add: example_lens1_def example_lens2_def)

lemma afocal_fields:
  "lens_f afocal_lens2 = 100" "lens_z afocal_lens2 = 200" "lens_h afocal_lens2 = 50"
  by (simp_all add: afocal_lens2_def)

text \<open>
  The definitions unfolded when a trace is evaluated on concrete lenses and rays.
\<close>

lemmas fp_eval_defs = fp_traceRay_def sortLenses_def fp_propagate_def fp_refract_def stop_def
  Ray_def Let_def fl_minus

subsection \<open>Magnification\<close>

text \<open>
  The matrix and the image of an object at \<open>z = -200\<close> that the engine computes in binary64
  for the two lenses of main.js.
\<close>

lemma fp_example_matrix:
  "fp_calculateSystemMatrix fl [example_lens1, example_lens2] =
     Some \<lparr>mat_A = - (1 / 2), mat_B = 150, mat_C = - (5764607523034235 / 1152921504606846976), mat_D = - (1 / 2)\<rparr>"
  by (simp add: fp_calculateSystemMatrix_def
      fp_calculateSystemMatrix_loop.simps[of fl "[example_lens1, example_lens2]"]
      Let_def fl_minus example_fields fl_vals)

lemma fp_example_image:
  "fp_calculateImage fl [example_lens1, example_lens2] (- 200) =
     Some \<lparr>img_z = Finite (6450468216285867 / 35184372088832), img_mag = Finite (- (3002399751580331 / 4503599627370496)),
           img_isVirtual = False\<rparr>"
  by (simp add: fp_calculateImage_def fp_example_matrix Let_def fl_minus
      example_fields fl_vals)


text \<open>
  The rounding errors of the image computation: the computed magnification times the
  computed denominator, against the determinant of the matrix.
\<close>

lemma magnification_rounding_bound:
  assumes den0: "den \<noteq> 0"
    and x1: "x1 = fl (A * d_o)" and num: "num = fl (x1 + B)"
    and x2: "x2 = fl (C * d_o)" and den: "den = fl (x2 + D)"
    and q: "q = fl (- num / den)" and x3: "x3 = fl (q * C)" and mag: "mag = fl (A + x3)"
  shows "\<bar>mag * den - (A * D - B * C)\<bar>
           \<le> 2 powi (- 53) * (\<bar>A\<bar> * (\<bar>x2\<bar> + \<bar>den\<bar>) + \<bar>C\<bar> * (\<bar>x1\<bar> + \<bar>num\<bar>)
                    + \<bar>den\<bar> * (\<bar>C\<bar> * \<bar>q\<bar> + \<bar>x3\<bar> + \<bar>mag\<bar>))"
proof -
  define e :: real where "e = 2 powi (- 53)"
  have e0: "0 \<le> e" by (simp add: e_def)
  define e1a where "e1a = x1 - A * d_o"
  define e1b where "e1b = num - (x1 + B)"
  define e2a where "e2a = x2 - C * d_o"
  define e2b where "e2b = den - (x2 + D)"
  define e3 where "e3 = q - (- num / den)"
  define e4 where "e4 = x3 - q * C"
  define e5 where "e5 = mag - (A + x3)"
  have b1a: "\<bar>e1a\<bar> \<le> e * \<bar>x1\<bar>" unfolding e1a_def x1 e_def by (rule fl_error_rel)
  have b1b: "\<bar>e1b\<bar> \<le> e * \<bar>num\<bar>" unfolding e1b_def num e_def by (rule fl_error_rel)
  have b2a: "\<bar>e2a\<bar> \<le> e * \<bar>x2\<bar>" unfolding e2a_def x2 e_def by (rule fl_error_rel)
  have b2b: "\<bar>e2b\<bar> \<le> e * \<bar>den\<bar>" unfolding e2b_def den e_def by (rule fl_error_rel)
  have b3: "\<bar>e3\<bar> \<le> e * \<bar>q\<bar>" unfolding e3_def q e_def by (rule fl_error_rel)
  have b4: "\<bar>e4\<bar> \<le> e * \<bar>x3\<bar>" unfolding e4_def x3 e_def by (rule fl_error_rel)
  have b5: "\<bar>e5\<bar> \<le> e * \<bar>mag\<bar>" unfolding e5_def mag e_def by (rule fl_error_rel)
  have qd: "q * den = e3 * den - num" using den0 by (simp add: e3_def field_simps)
  have "mag * den = A * den + C * (q * den) + (e4 + e5) * den"
    by (simp add: e4_def e5_def algebra_simps)
  also have "\<dots> = A * den - C * num + (C * e3 + e4 + e5) * den"
    unfolding qd by (simp add: algebra_simps)
  also have "A * den - C * num = A * D - B * C + A * (e2a + e2b) - C * (e1a + e1b)"
    by (simp add: e1a_def e1b_def e2a_def e2b_def algebra_simps)
  finally have id: "mag * den - (A * D - B * C)
                 = A * (e2a + e2b) - C * (e1a + e1b) + (C * e3 + e4 + e5) * den"
    by simp
  define a where "a = A * (e2a + e2b)"
  define b where "b = C * (e1a + e1b)"
  define c where "c = (C * e3 + e4 + e5) * den"
  define a' where "a' = \<bar>A\<bar> * (e * \<bar>x2\<bar> + e * \<bar>den\<bar>)"
  define b' where "b' = \<bar>C\<bar> * (e * \<bar>x1\<bar> + e * \<bar>num\<bar>)"
  define c' where "c' = \<bar>den\<bar> * (\<bar>C\<bar> * (e * \<bar>q\<bar>) + e * \<bar>x3\<bar> + e * \<bar>mag\<bar>)"
  have "\<bar>a\<bar> = \<bar>A\<bar> * \<bar>e2a + e2b\<bar>" by (simp add: a_def abs_mult)
  also have "\<dots> \<le> a'" unfolding a'_def using b2a b2b by (intro mult_left_mono) simp_all
  finally have A: "\<bar>a\<bar> \<le> a'" .
  have "\<bar>b\<bar> = \<bar>C\<bar> * \<bar>e1a + e1b\<bar>" by (simp add: b_def abs_mult)
  also have "\<dots> \<le> b'" unfolding b'_def using b1a b1b by (intro mult_left_mono) simp_all
  finally have B: "\<bar>b\<bar> \<le> b'" .
  have ce3: "\<bar>C * e3\<bar> \<le> \<bar>C\<bar> * (e * \<bar>q\<bar>)"
    unfolding abs_mult using b3 by (intro mult_left_mono) simp_all
  have "\<bar>c\<bar> = \<bar>den\<bar> * \<bar>C * e3 + e4 + e5\<bar>" by (simp add: c_def abs_mult)
  also have "\<dots> \<le> c'" unfolding c'_def using ce3 b4 b5 by (intro mult_left_mono, linarith, simp)
  finally have C: "\<bar>c\<bar> \<le> c'" .
  have "\<bar>a - b + c\<bar> \<le> a' + b' + c'" using A B C by linarith
  also have "a' + b' + c' = e * (\<bar>A\<bar> * (\<bar>x2\<bar> + \<bar>den\<bar>) + \<bar>C\<bar> * (\<bar>x1\<bar> + \<bar>num\<bar>)
                    + \<bar>den\<bar> * (\<bar>C\<bar> * \<bar>q\<bar> + \<bar>x3\<bar> + \<bar>mag\<bar>))"
    by (simp add: a'_def b'_def c'_def algebra_simps)
  finally show ?thesis unfolding id a_def b_def c_def e_def .
qed



subsection \<open>Cardinal points of a single lens\<close>

text \<open>
  Rounding the reciprocal of a rounded reciprocal: a relative error of at most \<open>2^-51\<close>.
\<close>

lemma reciprocal_twice:
  assumes "f \<noteq> 0"
  shows "\<bar>fl (1 / fl (1 / f)) - f\<bar> \<le> 2 powi (- 51) * \<bar>f\<bar>"
proof -
  define a where "a = 1 / f"
  define q where "q = fl a"
  define v where "v = fl (1 / q)"
  define e :: real where "e = 1 / 2 ^ 53"
  have a: "a \<noteq> 0" and fa: "f = 1 / a" using assms by (simp_all add: a_def)
  have q: "q \<noteq> 0" using a by (simp add: q_def)
  have e: "0 < e" "e \<le> 1 / 2" by (simp_all add: e_def)
  have qa: "\<bar>q - a\<bar> \<le> e * \<bar>a\<bar>"
    using fl_error[of a] by (simp add: q_def e_def eps53)
  have vq: "\<bar>v - 1 / q\<bar> \<le> e * \<bar>1 / q\<bar>"
    using fl_error[of "1 / q"] by (simp add: v_def e_def eps53)
  have aq: "\<bar>a\<bar> \<le> 2 * \<bar>q\<bar>"
  proof -
    have "\<bar>a\<bar> \<le> \<bar>q\<bar> + \<bar>q - a\<bar>" by linarith
    also have "\<dots> \<le> \<bar>q\<bar> + e * \<bar>a\<bar>" using qa by simp
    also have "\<dots> \<le> \<bar>q\<bar> + 1 / 2 * \<bar>a\<bar>"
      using e(2) by (intro add_left_mono mult_right_mono) simp_all
    finally show ?thesis by simp
  qed
  have inv: "\<bar>1 / q\<bar> \<le> 2 * \<bar>f\<bar>"
  proof -
    have "\<bar>1 / q\<bar> * (\<bar>a\<bar> * \<bar>q\<bar>) = \<bar>a\<bar>" using q by (simp add: abs_mult field_simps)
    also have "\<dots> \<le> 2 * \<bar>q\<bar>" by (rule aq)
    also have "\<dots> = 2 * \<bar>f\<bar> * (\<bar>a\<bar> * \<bar>q\<bar>)" using a by (simp add: fa abs_mult field_simps)
    finally show ?thesis using a q by (simp add: field_simps)
  qed
  have "1 / q - f = (a - q) / (q * a)" using a q by (simp add: fa field_simps)
  then have "\<bar>1 / q - f\<bar> = \<bar>q - a\<bar> / (\<bar>q\<bar> * \<bar>a\<bar>)"
    by (simp add: abs_mult abs_minus_commute)
  also have "\<dots> \<le> e * \<bar>a\<bar> / (\<bar>q\<bar> * \<bar>a\<bar>)"
    using qa a q by (intro divide_right_mono) simp_all
  also have "\<dots> = e * \<bar>1 / q\<bar>" using a q by (simp add: field_simps)
  finally have d1: "\<bar>1 / q - f\<bar> \<le> e * \<bar>1 / q\<bar>" .
  have "\<bar>v - f\<bar> \<le> \<bar>v - 1 / q\<bar> + \<bar>1 / q - f\<bar>" by linarith
  also have "\<dots> \<le> 2 * e * \<bar>1 / q\<bar>" using vq d1 by linarith
  also have "\<dots> \<le> 2 * e * (2 * \<bar>f\<bar>)" using inv e(1) by (intro mult_left_mono) simp_all
  also have "\<dots> = 2 powi (- 51) * \<bar>f\<bar>" by (simp add: e_def power_int_minus field_simps)
  finally show ?thesis by (simp add: v_def q_def a_def)
qed

lemma fp_system_matrix_single:
  "fp_calculateSystemMatrix fl [l] =
     Some \<lparr>mat_A = 1, mat_B = 0, mat_C = - fl (1 / lens_f l), mat_D = 1\<rparr>"
  by (simp add: fp_calculateSystemMatrix_def fp_calculateSystemMatrix_loop.simps[of fl "[l]"]
      Let_def fl_minus fl_idem)

lemma fp_cardinal_single:
  assumes "lens_f l \<noteq> 0" and "\<bar>1 / lens_f l\<bar> \<ge> 1 / 10 ^ 10" and "is_double (lens_z l)"
  shows "fp_calculateCardinalPoints fl [l] =
           Some \<lparr>cp_efl = Finite (fl (1 / fl (1 / lens_f l))),
                 cp_bfl = Finite (fl (fl (lens_z l + fl (1 / fl (1 / lens_f l))) - lens_z l)),
                 cp_H = lens_z l, cp_H_prime = lens_z l,
                 cp_F_prime = Finite (fl (lens_z l + fl (1 / fl (1 / lens_f l))))\<rparr>"
proof -
  have "\<bar>fl (1 / 10 ^ 10)\<bar> \<le> \<bar>fl (1 / lens_f l)\<bar>"
    using assms(2) by (intro fl_abs_mono) simp
  moreover have "0 \<le> fl (1 / 10 ^ 10)" using fl_mono[of 0 "1 / 10 ^ 10"] by simp
  ultimately have nlt: "\<not> \<bar>fl (1 / lens_f l)\<bar> < fl (1 / 10 ^ 10)" by simp
  have z: "fl (lens_z l) = lens_z l" using assms(3) by (simp add: is_double_def)
  show ?thesis
    using nlt by (simp add: fp_calculateCardinalPoints_def fp_system_matrix_single Let_def z)
qed

text \<open>
  C6 does not hold of the computed numbers: for a single lens with \<open>f = 49\<close> the engine
  returns \<open>EFL = 1 / (1 / 49)\<close>, which in binary64 is \<open>49 + 2^-47\<close>, the double
  \<open>49.00000000000001\<close>.
\<close>

theorem single_lens_efl_not_exact:
  "lens_f lens49 \<noteq> 0 \<and> \<bar>1 / lens_f lens49\<bar> \<ge> 1 / 10 ^ 10
   \<and> cp_efl (the (fp_calculateCardinalPoints fl [lens49])) = Finite (49 + 1 / 2 ^ 47)
   \<and> cp_efl (the (fp_calculateCardinalPoints fl [lens49])) \<noteq> Finite (lens_f lens49)"
proof -
  have "fp_calculateCardinalPoints fl [lens49] =
           Some \<lparr>cp_efl = Finite (fl (1 / fl (1 / lens_f lens49))),
                 cp_bfl = Finite (fl (fl (lens_z lens49 + fl (1 / fl (1 / lens_f lens49))) - lens_z lens49)),
                 cp_H = lens_z lens49, cp_H_prime = lens_z lens49,
                 cp_F_prime = Finite (fl (lens_z lens49 + fl (1 / fl (1 / lens_f lens49))))\<rparr>"
    by (rule fp_cardinal_single) (simp_all add: lens49_def)
  then show ?thesis by (simp add: lens49_def fl_vals)
qed

text \<open>
  C6, amended. For a system of exactly one lens at a position \<open>z0\<close> that is a double, with
  a focal length \<open>f\<close> that is non-zero, of magnitude at least \<open>2^-1022\<close> (so that \<open>1 / f\<close> does
  not overflow) and with \<open>|1/f|\<close> not below \<open>1e-10\<close>, \<open>calculateCardinalPoints\<close> returns
  \<open>EFL = fl (1 / fl (1 / f))\<close>, which differs from \<open>f\<close> by at most \<open>2^-51 |f|\<close>, and both
  principal planes \<open>H\<close> and \<open>H'\<close> exactly at \<open>z0\<close>.
\<close>

theorem single_lens_cardinal_points_rounded:
  assumes "lens_f l \<noteq> 0" and "\<bar>1 / lens_f l\<bar> \<ge> 1 / 10 ^ 10"
    and "2 powi (- 1022) \<le> \<bar>lens_f l\<bar>" and "is_double (lens_z l)"
  shows "\<exists>cp v. fp_calculateCardinalPoints fl [l] = Some cp
           \<and> cp_efl cp = Finite v \<and> v = fl (1 / fl (1 / lens_f l))
           \<and> \<bar>v - lens_f l\<bar> \<le> 2 powi (- 51) * \<bar>lens_f l\<bar>
           \<and> cp_H cp = lens_z l \<and> cp_H_prime cp = lens_z l"
  using fp_cardinal_single[OF assms(1,2,4)] reciprocal_twice[OF assms(1)] by simp

theorem single_lens_cardinal_points_rounded_witness:
  "lens_f lens49 \<noteq> 0 \<and> \<bar>1 / lens_f lens49\<bar> \<ge> 1 / 10 ^ 10
   \<and> 2 powi (- 1022) \<le> \<bar>lens_f lens49\<bar> \<and> is_double (lens_z lens49)
   \<and> (\<exists>cp. fp_calculateCardinalPoints fl [lens49] = Some cp
          \<and> cp_efl cp = Finite (49 + 1 / 2 ^ 47)
          \<and> \<bar>49 + 1 / 2 ^ 47 - lens_f lens49\<bar> \<le> 2 powi (- 51) * \<bar>lens_f lens49\<bar>
          \<and> cp_H cp = 0 \<and> cp_H_prime cp = 0)"
proof -
  have h3: "2 powi (- 1022) \<le> \<bar>lens_f lens49\<bar>"
  proof -
    have "(2::real) powi (- 1022) \<le> 2 powi 0" by (intro pow2_mono) simp
    then show ?thesis by (simp add: lens49_def)
  qed
  have h: "lens_f lens49 \<noteq> 0" "\<bar>1 / lens_f lens49\<bar> \<ge> 1 / 10 ^ 10" "is_double (lens_z lens49)"
    by (simp_all add: lens49_def)
  from single_lens_cardinal_points_rounded[OF h(1,2) h3 h(3)]
  obtain cp v where cp: "fp_calculateCardinalPoints fl [lens49] = Some cp"
    "cp_efl cp = Finite v" "v = fl (1 / fl (1 / lens_f lens49))"
    "\<bar>v - lens_f lens49\<bar> \<le> 2 powi (- 51) * \<bar>lens_f lens49\<bar>"
    "cp_H cp = lens_z lens49" "cp_H_prime cp = lens_z lens49"
    by blast
  have v: "v = 49 + 1 / 2 ^ 47"
    using cp(3) by (simp add: lens49_def fl_vals)
  have "cp_efl cp = Finite (49 + 1 / 2 ^ 47)" using cp(2) v by simp
  moreover have "\<bar>49 + 1 / 2 ^ 47 - lens_f lens49\<bar> \<le> 2 powi (- 51) * \<bar>lens_f lens49\<bar>"
    using cp(4) unfolding v .
  moreover have "cp_H cp = 0" "cp_H_prime cp = 0" using cp(5,6) by (simp_all add: lens49_def)
  ultimately have "\<exists>cp. fp_calculateCardinalPoints fl [lens49] = Some cp
          \<and> cp_efl cp = Finite (49 + 1 / 2 ^ 47)
          \<and> \<bar>49 + 1 / 2 ^ 47 - lens_f lens49\<bar> \<le> 2 powi (- 51) * \<bar>lens_f lens49\<bar>
          \<and> cp_H cp = 0 \<and> cp_H_prime cp = 0"
    using cp(1) by blast
  then show ?thesis using h h3 by blast
qed

subsection \<open>Which lenses take part\<close>

lemma threshold_ge:
  assumes "is_double (lens_z l)"
  shows "lens_z l \<le> fl (lens_z l + fl (1 / 10 ^ 9))"
  using assms c9_nonneg by (intro is_double_le_fl) simp_all

lemma threshold_mono:
  "lens_z l \<le> lens_z l' \<Longrightarrow>
     fl (lens_z l + fl (1 / 10 ^ 9)) \<le> fl (lens_z l' + fl (1 / 10 ^ 9))"
  by (intro fl_mono) simp

lemma threshold_le:
  assumes "is_double (lens_z l)"
  shows "fl (lens_z l + fl (1 / 10 ^ 9)) \<le> lens_z l + 2 * fl (1 / 10 ^ 9)"
  using assms c9_nonneg by (rule fl_add_upper)

lemma fp_filter_all_ahead:
  assumes "\<forall>l' \<in> set ls. lens_z l \<le> lens_z l'" and "z \<le> fl (lens_z l + fl (1 / 10 ^ 9))"
  shows "filter (\<lambda>l'. z \<le> fl (lens_z l' + fl (1 / 10 ^ 9))) ls = ls"
proof -
  have "\<forall>l' \<in> set ls. z \<le> fl (lens_z l' + fl (1 / 10 ^ 9))"
  proof
    fix l' assume "l' \<in> set ls"
    with assms(1) have "lens_z l \<le> lens_z l'" by blast
    from threshold_mono[OF this] assms(2) show "z \<le> fl (lens_z l' + fl (1 / 10 ^ 9))"
      by linarith
  qed
  then show ?thesis by (simp add: filter_id_conv)
qed

lemma fp_visited_prefix:
  "sorted (map lens_z ls) \<Longrightarrow> \<forall>l \<in> set ls. is_double (lens_z l) \<Longrightarrow> ray_active r \<Longrightarrow>
     \<exists>rest. filter (\<lambda>l. ray_z r \<le> fl (lens_z l + fl (1 / 10 ^ 9))) ls
               = fp_traceRay_visited fl ls r @ rest
            \<and> (ray_active (fp_traceRay_loop fl ls r) \<longrightarrow> rest = [])"
proof (induction ls arbitrary: r)
  case Nil
  then show ?case by simp
next
  case (Cons l ls)
  from Cons.prems have srt: "sorted (map lens_z ls)"
    and ahead: "\<forall>l' \<in> set ls. lens_z l \<le> lens_z l'"
    and dbl: "\<forall>l' \<in> set ls. is_double (lens_z l')" and dl: "is_double (lens_z l)"
    by auto
  show ?case
  proof (cases "ray_z r > fl (lens_z l + fl (1 / 10 ^ 9))")
    case True
    with Cons.IH[OF srt dbl Cons.prems(3)] show ?thesis by simp
  next
    case False
    let ?r1 = "fp_propagate fl r (lens_z l)"
    show ?thesis
    proof (cases "\<bar>ray_y ?r1\<bar> > lens_h l")
      case True
      with False show ?thesis by (simp add: Let_def)
    next
      case nb: False
      let ?r2 = "fp_refract fl ?r1 (lens_f l)"
      have act: "ray_active ?r2" using Cons.prems(3) by simp
      have z2: "ray_z ?r2 = lens_z l" using Cons.prems(3) by (simp add: fp_propagate_fields)
      from Cons.IH[OF srt dbl act] obtain rest where
        rest: "filter (\<lambda>l'. lens_z l \<le> fl (lens_z l' + fl (1 / 10 ^ 9))) ls
                 = fp_traceRay_visited fl ls ?r2 @ rest"
              "ray_active (fp_traceRay_loop fl ls ?r2) \<longrightarrow> rest = []"
        unfolding z2 by blast
      have "filter (\<lambda>l'. lens_z l \<le> fl (lens_z l' + fl (1 / 10 ^ 9))) ls = ls"
        using ahead threshold_ge[OF dl] by (intro fp_filter_all_ahead[of ls l]) simp_all
      with rest(1) have ls: "ls = fp_traceRay_visited fl ls ?r2 @ rest" by simp
      have all: "filter (\<lambda>l'. ray_z r \<le> fl (lens_z l' + fl (1 / 10 ^ 9))) ls = ls"
        using ahead False by (intro fp_filter_all_ahead[of ls l]) simp_all
      have lhs: "filter (\<lambda>l'. ray_z r \<le> fl (lens_z l' + fl (1 / 10 ^ 9))) (l # ls) = l # ls"
        using all False by simp
      have vis: "fp_traceRay_visited fl (l # ls) r = l # fp_traceRay_visited fl ls ?r2"
        using False nb by (simp add: Let_def)
      have loop: "fp_traceRay_loop fl (l # ls) r = fp_traceRay_loop fl ls ?r2"
        using False nb by (simp add: Let_def)
      have "l # ls = fp_traceRay_visited fl (l # ls) r @ rest"
        unfolding vis using ls by simp
      then show ?thesis
        unfolding lhs loop using rest(2) by blast
    qed
  qed
qed

lemma fp_visited_sorted:
  assumes "sorted (map lens_z ls)" and "\<forall>l \<in> set ls. is_double (lens_z l)" and "ray_active r"
  shows "sorted (map lens_z (fp_traceRay_visited fl ls r))"
proof -
  from fp_visited_prefix[OF assms] obtain rest where
    "filter (\<lambda>l. ray_z r \<le> fl (lens_z l + fl (1 / 10 ^ 9))) ls = fp_traceRay_visited fl ls r @ rest"
    by blast
  moreover have "sorted (map lens_z (filter (\<lambda>l. ray_z r \<le> fl (lens_z l + fl (1 / 10 ^ 9))) ls))"
    using assms(1) by (simp add: sorted_filter)
  ultimately show ?thesis by (simp add: sorted_append)
qed

lemma fp_visited_subset:
  assumes "sorted (map lens_z ls)" and "\<forall>l \<in> set ls. is_double (lens_z l)" and "ray_active r"
  shows "set (fp_traceRay_visited fl ls r)
           \<subseteq> {l \<in> set ls. ray_z r \<le> fl (lens_z l + fl (1 / 10 ^ 9))}"
proof -
  from fp_visited_prefix[OF assms] obtain rest where
    "filter (\<lambda>l. ray_z r \<le> fl (lens_z l + fl (1 / 10 ^ 9))) ls = fp_traceRay_visited fl ls r @ rest"
    by blast
  then have "set (fp_traceRay_visited fl ls r)
               \<subseteq> set (filter (\<lambda>l. ray_z r \<le> fl (lens_z l + fl (1 / 10 ^ 9))) ls)"
    by simp
  then show ?thesis by auto
qed

text \<open>
  The trace of a ray that starts \<open>2^-29\<close> beyond the lens at \<open>10^7\<close>.
\<close>

lemma far_lens_trace:
  "fp_traceRay_visited fl [far_lens] (Ray (10 ^ 7 + 1 / 2 ^ 29) 0 0) = [far_lens]"
  "map fst (ray_path (snd (fp_traceRay fl [far_lens] (Ray (10 ^ 7 + 1 / 2 ^ 29) 0 0))))
     = [10 ^ 7 + 1 / 2 ^ 29, 10 ^ 7, 10 ^ 7 + 1000]"
  by (simp_all add: fp_eval_defs far_lens_def fl_vals)

text \<open>
  C7 names the tolerance \<open>1e-9\<close>, but the test is made on the rounded sum
  \<open>lens.z + 1e-9\<close>. For the lens at \<open>10^7\<close> that sum is the next double, \<open>10^7 + 2^-29\<close>: a
  ray that starts there is beyond the lens by more than \<open>1e-9\<close> (by about \<open>1.86e-9\<close>) and
  is not skipped; it is propagated back to the lens.
\<close>

theorem lens_beyond_tolerance_reached:
  "lens_z far_lens + 1 / 10 ^ 9 < ray_z (Ray (10 ^ 7 + 1 / 2 ^ 29) 0 0)
   \<and> fp_traceRay_visited fl [far_lens] (Ray (10 ^ 7 + 1 / 2 ^ 29) 0 0) = [far_lens]
   \<and> map fst (ray_path (snd (fp_traceRay fl [far_lens] (Ray (10 ^ 7 + 1 / 2 ^ 29) 0 0))))
       = [10 ^ 7 + 1 / 2 ^ 29, 10 ^ 7, 10 ^ 7 + 1000]"
  using far_lens_trace by (simp add: far_lens_def Ray_def)

text \<open>
  C7, amended. \<open>traceRay\<close> works on the lenses sorted by ascending position (positions
  that are doubles). The lenses it propagates an active ray to are, in that order, the
  lenses \<open>l\<close> for which \<open>ray.z \<le> l.z + 1e-9\<close> holds of the rounded sum, up to the lens that
  blocks the ray if one does, and all of them if the ray ends active; their positions
  are ascending, and the \<open>z\<close> coordinates of the path are the start, the positions of
  these lenses, and the extension if the ray is still active. A lens at or ahead of the
  ray always passes the test; a lens behind the ray by more than \<open>2.1e-9\<close> never does.
  Focal lengths take no part in the statement.
\<close>

theorem fp_participating_lenses:
  assumes "ray_active r"
    and "\<forall>l \<in> set lenses. is_double (lens_z l)"
    and "ss = fst (fp_traceRay fl lenses r)"
    and "r' = snd (fp_traceRay fl lenses r)"
    and "V = fp_traceRay_visited fl ss r"
  shows "sorted (map lens_z ss) \<and> mset ss = mset lenses
         \<and> map fst (ray_path r') = map fst (ray_path r) @ map lens_z V
             @ (if ray_active r'
                then [fl ((if ss = [] then ray_z r else lens_z (last ss)) + 1000)] else [])
         \<and> (\<exists>rest. filter (\<lambda>l. ray_z r \<le> fl (lens_z l + fl (1 / 10 ^ 9))) ss = V @ rest)
         \<and> (ray_active r' \<longrightarrow> V = filter (\<lambda>l. ray_z r \<le> fl (lens_z l + fl (1 / 10 ^ 9))) ss)
         \<and> sorted (map lens_z V)
         \<and> (\<forall>l \<in> set ss. ray_z r \<le> lens_z l \<longrightarrow> ray_z r \<le> fl (lens_z l + fl (1 / 10 ^ 9)))
         \<and> (\<forall>l \<in> set ss. lens_z l + 21 / 10 ^ 10 < ray_z r
                \<longrightarrow> \<not> ray_z r \<le> fl (lens_z l + fl (1 / 10 ^ 9)))"
proof -
  have ss: "ss = sortLenses lenses" using assms(3) by (simp add: fp_traceRay_fst)
  have srt: "sorted (map lens_z ss)" unfolding ss by (rule sortLenses_sorted)
  have dbl: "\<forall>l \<in> set ss. is_double (lens_z l)" using assms(2) by (simp add: ss sortLenses_set)
  have act: "ray_active r' = ray_active (fp_traceRay_loop fl ss r)"
    unfolding assms(4) ss by (simp add: fp_traceRay_snd)
  from fp_visited_prefix[OF srt dbl assms(1)] obtain rest where
    rest: "filter (\<lambda>l. ray_z r \<le> fl (lens_z l + fl (1 / 10 ^ 9))) ss = V @ rest"
          "ray_active (fp_traceRay_loop fl ss r) \<longrightarrow> rest = []"
    unfolding assms(5) by blast
  have c1: "mset ss = mset lenses" unfolding ss by (rule sortLenses_mset)
  have c2: "map fst (ray_path r') = map fst (ray_path r) @ map lens_z V
             @ (if ray_active r'
                then [fl ((if ss = [] then ray_z r else lens_z (last ss)) + 1000)] else [])"
    unfolding assms(4,5) ss by (rule fp_traceRay_path_z[OF assms(1)])
  have c3: "\<exists>rest. filter (\<lambda>l. ray_z r \<le> fl (lens_z l + fl (1 / 10 ^ 9))) ss = V @ rest"
    using rest(1) by blast
  have c4: "ray_active r' \<longrightarrow> V = filter (\<lambda>l. ray_z r \<le> fl (lens_z l + fl (1 / 10 ^ 9))) ss"
    using rest act by simp
  have c5: "sorted (map lens_z V)"
    unfolding assms(5) by (rule fp_visited_sorted[OF srt dbl assms(1)])
  have c6: "\<forall>l \<in> set ss. ray_z r \<le> lens_z l \<longrightarrow> ray_z r \<le> fl (lens_z l + fl (1 / 10 ^ 9))"
  proof (intro ballI impI)
    fix l assume "l \<in> set ss" and le: "ray_z r \<le> lens_z l"
    with dbl have "is_double (lens_z l)" by blast
    from threshold_ge[OF this] le show "ray_z r \<le> fl (lens_z l + fl (1 / 10 ^ 9))" by linarith
  qed
  have c7: "\<forall>l \<in> set ss. lens_z l + 21 / 10 ^ 10 < ray_z r
                \<longrightarrow> \<not> ray_z r \<le> fl (lens_z l + fl (1 / 10 ^ 9))"
  proof (intro ballI impI)
    fix l assume "l \<in> set ss" and lt: "lens_z l + 21 / 10 ^ 10 < ray_z r"
    with dbl have "is_double (lens_z l)" by blast
    from threshold_le[OF this] c9_le lt
    show "\<not> ray_z r \<le> fl (lens_z l + fl (1 / 10 ^ 9))" by linarith
  qed
  from srt c1 c2 c3 c4 c5 c6 c7 show ?thesis by blast
qed

theorem fp_participating_lenses_witness:
  "ray_active (Ray (10 ^ 7 + 1 / 2 ^ 29) 0 0) \<and> is_double (lens_z far_lens)
   \<and> fst (fp_traceRay fl [far_lens] (Ray (10 ^ 7 + 1 / 2 ^ 29) 0 0)) = [far_lens]
   \<and> fp_traceRay_visited fl [far_lens] (Ray (10 ^ 7 + 1 / 2 ^ 29) 0 0) = [far_lens]
   \<and> filter (\<lambda>l. ray_z (Ray (10 ^ 7 + 1 / 2 ^ 29) 0 0) \<le> fl (lens_z l + fl (1 / 10 ^ 9))) [far_lens]
        = [far_lens]
   \<and> map fst (ray_path (snd (fp_traceRay fl [far_lens] (Ray (10 ^ 7 + 1 / 2 ^ 29) 0 0))))
        = [10 ^ 7 + 1 / 2 ^ 29, 10 ^ 7, 10 ^ 7 + 1000]"
proof -
  have h1: "ray_active (Ray (10 ^ 7 + 1 / 2 ^ 29) 0 0)" by (simp add: Ray_def)
  have h2: "\<forall>l \<in> set [far_lens]. is_double (lens_z l)"
    using is_double_far(1) by (simp add: far_lens_def)
  have ss: "fst (fp_traceRay fl [far_lens] (Ray (10 ^ 7 + 1 / 2 ^ 29) 0 0)) = [far_lens]"
    by (simp add: fp_traceRay_fst sortLenses_def)
  have act: "ray_active (snd (fp_traceRay fl [far_lens] (Ray (10 ^ 7 + 1 / 2 ^ 29) 0 0)))"
    by (simp add: fp_eval_defs far_lens_def fl_vals)
  from fp_participating_lenses [OF h1 h2 refl refl refl]
  have "ray_active (snd (fp_traceRay fl [far_lens] (Ray (10 ^ 7 + 1 / 2 ^ 29) 0 0)))
     \<longrightarrow> fp_traceRay_visited fl (fst (fp_traceRay fl [far_lens] (Ray (10 ^ 7 + 1 / 2 ^ 29) 0 0)))
           (Ray (10 ^ 7 + 1 / 2 ^ 29) 0 0)
         = filter (\<lambda>l. ray_z (Ray (10 ^ 7 + 1 / 2 ^ 29) 0 0) \<le> fl (lens_z l + fl (1 / 10 ^ 9)))
             (fst (fp_traceRay fl [far_lens] (Ray (10 ^ 7 + 1 / 2 ^ 29) 0 0)))"
    by blast
  with act have "filter (\<lambda>l. ray_z (Ray (10 ^ 7 + 1 / 2 ^ 29) 0 0) \<le> fl (lens_z l + fl (1 / 10 ^ 9))) [far_lens]
        = fp_traceRay_visited fl [far_lens] (Ray (10 ^ 7 + 1 / 2 ^ 29) 0 0)"
    unfolding ss by simp
  then show ?thesis using h1 h2 ss far_lens_trace by simp
qed

subsection \<open>Monotonicity of the path\<close>

text \<open>
  A ray that starts within \<open>1e-9\<close> beyond a lens is propagated back to that lens, so
  the \<open>z\<close> coordinates of its path are not non-decreasing.
\<close>

theorem path_z_not_monotone:
  "\<not> sorted (map fst (ray_path (snd (traceRay [example_lens1] (Ray (1 / (2 * 10 ^ 9)) 0 0)))))"
  by (simp add: eval_defs)

lemma path_in_tolerance:
  "map fst (ray_path (snd (traceRay [example_lens1] (Ray (1 / (2 * 10 ^ 9)) 0 0)))) = [1 / (2 * 10 ^ 9), 0, 1000]"
  by (simp add: eval_defs)

text \<open>
  A ray that starts more than 1000 beyond the last lens is pushed to \<open>lastLensZ + 1000\<close>,
  which lies behind it.
\<close>

lemma extension_moves_backward:
  "map fst (ray_path (snd (traceRay [example_lens1] (Ray 2000 0 0)))) = [2000, 1000]"
  by (simp add: eval_defs)

text \<open>
  The path of a ray through the two lenses of main.js, computed in binary64.
\<close>

lemma std_trace:
  "map fst (ray_path (snd (fp_traceRay fl [example_lens2, example_lens1] (Ray (- 200) 0 (1 / 16)))))
     = [- 200, 0, 150, 1150]"
  by (simp add: fp_traceRay_def sortLenses_def fp_propagate_def fp_refract_def stop_def Ray_def
      Let_def fl_minus example_fields fl_vals)

text \<open>
  C4, amended. For a freshly constructed ray and a lens list, the start of the ray and
  the lens positions doubles, where the ray does not start more than 1000 beyond the
  last lens: after \<open>traceRay\<close> the path is non-empty and no \<open>z\<close> coordinate of the path is
  below an earlier one by more than \<open>2.1e-9\<close>; and the \<open>z\<close> coordinates are non-decreasing
  when the ray starts in the window \<open>l.z < z \<le> l.z + 1e-9\<close> (the rounded sum) of no lens
  \<open>l\<close>. Focal lengths take no part in the statement.
\<close>

theorem fp_path_z_monotone_up_to_tolerance:
  assumes "is_double z0"
    and "\<forall>l \<in> set lenses. is_double (lens_z l)"
    and "lenses \<noteq> [] \<longrightarrow> (\<exists>l \<in> set lenses. z0 \<le> lens_z l + 1000)"
    and "r' = snd (fp_traceRay fl lenses (Ray z0 y0 u0))"
    and "zs = map fst (ray_path r')"
  shows "ray_path r' \<noteq> []
         \<and> sorted_wrt (\<lambda>a b. a - 21 / 10 ^ 10 \<le> b) zs
         \<and> ((\<forall>l \<in> set lenses. \<not> (lens_z l < z0 \<and> z0 \<le> fl (lens_z l + fl (1 / 10 ^ 9))))
              \<longrightarrow> sorted zs)"
proof -
  let ?r = "Ray z0 y0 u0"
  let ?ss = "sortLenses lenses"
  let ?V = "fp_traceRay_visited fl ?ss ?r"
  let ?e = "fl ((if ?ss = [] then ray_z ?r else lens_z (last ?ss)) + 1000)"
  let ?E = "if ray_active r' then [?e] else []"
  have act: "ray_active ?r" and z: "ray_z ?r = z0" and p: "map fst (ray_path ?r) = [z0]"
    by (simp_all add: Ray_def)
  have srt: "sorted (map lens_z ?ss)" by (rule sortLenses_sorted)
  have dbl: "\<forall>l \<in> set ?ss. is_double (lens_z l)" using assms(2) by (simp add: sortLenses_set)
  have zs: "zs = z0 # map lens_z ?V @ ?E"
    unfolding assms(4,5) using fp_traceRay_path_z[OF act, of fl lenses] p by simp
  have V: "\<forall>l \<in> set ?V. l \<in> set lenses \<and> z0 \<le> fl (lens_z l + fl (1 / 10 ^ 9))"
    using fp_visited_subset[OF srt dbl act] z by (auto simp: sortLenses_set)
  have Vtol: "\<forall>l \<in> set ?V. z0 - 21 / 10 ^ 10 \<le> lens_z l"
  proof
    fix l assume l: "l \<in> set ?V"
    with V have "l \<in> set lenses" and le: "z0 \<le> fl (lens_z l + fl (1 / 10 ^ 9))" by blast+
    with assms(2) have "is_double (lens_z l)" by blast
    from threshold_le[OF this] c9_le le show "z0 - 21 / 10 ^ 10 \<le> lens_z l" by linarith
  qed
  have Vs: "sorted (map lens_z ?V)" by (rule fp_visited_sorted[OF srt dbl act])
  have le_e: "\<forall>l \<in> set lenses. lens_z l \<le> ?e"
  proof
    fix l assume l: "l \<in> set lenses"
    then have "l \<in> set ?ss" by (simp add: sortLenses_set)
    from sorted_le_last[OF srt this] have "lens_z l \<le> lens_z (last ?ss)" .
    moreover have ne: "?ss \<noteq> []" using l by (auto simp: sortLenses_Nil)
    moreover have "last ?ss \<in> set ?ss" using ne by simp
    then have "is_double (lens_z (last ?ss))" using dbl by blast
    then have "lens_z (last ?ss) \<le> fl (lens_z (last ?ss) + 1000)"
      by (intro is_double_le_fl) simp_all
    ultimately show "lens_z l \<le> ?e" by simp
  qed
  have z0_e: "z0 \<le> ?e"
  proof (cases "lenses = []")
    case True
    then have "?e = fl (z0 + 1000)" by (simp add: sortLenses_Nil z)
    moreover have "z0 \<le> fl (z0 + 1000)" using assms(1) by (intro is_double_le_fl) simp_all
    ultimately show ?thesis by simp
  next
    case False
    with assms(3) obtain l where l: "l \<in> set lenses" "z0 \<le> lens_z l + 1000" by blast
    have ne: "?ss \<noteq> []" using False by (simp add: sortLenses_Nil)
    have "l \<in> set ?ss" using l(1) by (simp add: sortLenses_set)
    from sorted_le_last[OF srt this] l(2) have "z0 \<le> lens_z (last ?ss) + 1000" by linarith
    then have "z0 \<le> fl (lens_z (last ?ss) + 1000)" using assms(1) by (intro is_double_le_fl)
    then show ?thesis using ne by simp
  qed
  have ne: "ray_path r' \<noteq> []"
  proof
    assume "ray_path r' = []"
    then have "zs = []" using assms(5) by simp
    then show False using zs by simp
  qed
  have tol: "sorted_wrt (\<lambda>a b. a - 21 / 10 ^ 10 \<le> b) zs"
    unfolding zs
  proof (rule sorted_wrt_shape)
    show "\<forall>a \<in> set (map lens_z ?V). z0 - 21 / 10 ^ 10 \<le> a" using Vtol by auto
    show "sorted_wrt (\<lambda>a b. a - 21 / 10 ^ 10 \<le> b) (map lens_z ?V)"
      using Vs by (rule sorted_wrt_mono_rel[rotated]) simp
    show "\<forall>a \<in> set (map lens_z ?V). \<forall>e \<in> set ?E. a - 21 / 10 ^ 10 \<le> e"
    proof (intro ballI)
      fix a e assume a: "a \<in> set (map lens_z ?V)" and e: "e \<in> set ?E"
      from a V obtain l where "l \<in> set lenses" "a = lens_z l" by auto
      with le_e have "a \<le> ?e" by blast
      moreover from e have "e = ?e" by (simp split: if_splits)
      ultimately show "a - 21 / 10 ^ 10 \<le> e" by simp
    qed
    show "\<forall>e \<in> set ?E. z0 - 21 / 10 ^ 10 \<le> e" using z0_e by auto
    show "length ?E \<le> 1" by simp
  qed
  have exact: "sorted zs"
    if nw: "\<forall>l \<in> set lenses. \<not> (lens_z l < z0 \<and> z0 \<le> fl (lens_z l + fl (1 / 10 ^ 9)))"
  proof -
    have "sorted_wrt (\<le>) (z0 # map lens_z ?V @ ?E)"
    proof (rule sorted_wrt_shape)
      show "\<forall>a \<in> set (map lens_z ?V). z0 \<le> a" using V nw by fastforce
      show "sorted_wrt (\<le>) (map lens_z ?V)" using Vs by simp
      show "\<forall>a \<in> set (map lens_z ?V). \<forall>e \<in> set ?E. a \<le> e" using V le_e by auto
      show "\<forall>e \<in> set ?E. z0 \<le> e" using z0_e by auto
      show "length ?E \<le> 1" by simp
    qed
    then show ?thesis unfolding zs by simp
  qed
  from ne tol exact show ?thesis by blast
qed

theorem fp_path_z_monotone_up_to_tolerance_witness:
  "is_double (10 ^ 7 + 1 / 2 ^ 29) \<and> is_double (lens_z far_lens)
   \<and> (10 ^ 7 + 1 / 2 ^ 29 :: real) \<le> lens_z far_lens + 1000
   \<and> ray_path (snd (fp_traceRay fl [far_lens] (Ray (10 ^ 7 + 1 / 2 ^ 29) 0 0))) \<noteq> []
   \<and> sorted_wrt (\<lambda>a b. a - 21 / 10 ^ 10 \<le> b)
        (map fst (ray_path (snd (fp_traceRay fl [far_lens] (Ray (10 ^ 7 + 1 / 2 ^ 29) 0 0)))))
   \<and> map fst (ray_path (snd (fp_traceRay fl [far_lens] (Ray (10 ^ 7 + 1 / 2 ^ 29) 0 0))))
        = [10 ^ 7 + 1 / 2 ^ 29, 10 ^ 7, 10 ^ 7 + 1000]
   \<and> is_double (- 200) \<and> is_double (lens_z example_lens1) \<and> is_double (lens_z example_lens2)
   \<and> (- 200 :: real) \<le> lens_z example_lens2 + 1000
   \<and> \<not> (lens_z example_lens1 < - 200 \<and> - 200 \<le> fl (lens_z example_lens1 + fl (1 / 10 ^ 9)))
   \<and> \<not> (lens_z example_lens2 < - 200 \<and> - 200 \<le> fl (lens_z example_lens2 + fl (1 / 10 ^ 9)))
   \<and> sorted (map fst (ray_path (snd (fp_traceRay fl [example_lens2, example_lens1]
                                       (Ray (- 200) 0 (1 / 16))))))
   \<and> map fst (ray_path (snd (fp_traceRay fl [example_lens2, example_lens1] (Ray (- 200) 0 (1 / 16)))))
        = [- 200, 0, 150, 1150]"
proof -
  have f1: "is_double (10 ^ 7 + 1 / 2 ^ 29)" by (rule is_double_far(2))
  have f2: "\<forall>l \<in> set [far_lens]. is_double (lens_z l)"
    using is_double_far(1) by (simp add: far_lens_def)
  have f3: "[far_lens] \<noteq> [] \<longrightarrow> (\<exists>l \<in> set [far_lens]. (10 ^ 7 + 1 / 2 ^ 29 :: real) \<le> lens_z l + 1000)"
    by (simp add: far_lens_def)
  note far = fp_path_z_monotone_up_to_tolerance [OF f1 f2 f3 refl refl, of 0 0]
  have s1: "is_double (- 200)" by (rule is_double_small(3))
  have s2: "\<forall>l \<in> set [example_lens2, example_lens1]. is_double (lens_z l)"
    using is_double_small(1) by (simp add: example_fields)
  have s3: "[example_lens2, example_lens1] \<noteq> [] \<longrightarrow>
              (\<exists>l \<in> set [example_lens2, example_lens1]. (- 200 :: real) \<le> lens_z l + 1000)"
    by (simp add: example_fields)
  have s4: "\<forall>l \<in> set [example_lens2, example_lens1].
              \<not> (lens_z l < - 200 \<and> - 200 \<le> fl (lens_z l + fl (1 / 10 ^ 9)))"
    by (simp add: example_fields)
  from fp_path_z_monotone_up_to_tolerance [OF s1 s2 s3 refl refl, of 0 "1 / 16"] s4
  have std: "sorted (map fst (ray_path (snd (fp_traceRay fl [example_lens2, example_lens1]
                                       (Ray (- 200) 0 (1 / 16))))))"
    by blast
  show ?thesis
    using far std f1 s1 is_double_far(1) is_double_small(1) far_lens_trace(2) std_trace
    by (simp add: far_lens_def example_fields)
qed

subsection \<open>Afocal pair\<close>

text \<open>
  Two matched lenses a distance \<open>f1 + f2\<close> apart turn the slope \<open>1/10\<close> of an unblocked
  ray into \<open>-1/10\<close>.
\<close>

theorem afocal_slope_not_preserved:
  "lens_f example_lens1 \<noteq> 0 \<and> lens_f afocal_lens2 \<noteq> 0
   \<and> lens_z afocal_lens2 - lens_z example_lens1 = lens_f example_lens1 + lens_f afocal_lens2
   \<and> ray_active (snd (traceRay [example_lens1, afocal_lens2] (Ray (- 100) 0 (1 / 10))))
   \<and> ray_u (Ray (- 100) 0 (1 / 10)) = 1 / 10
   \<and> ray_u (snd (traceRay [example_lens1, afocal_lens2] (Ray (- 100) 0 (1 / 10)))) = - 1 / 10
   \<and> ray_u (snd (traceRay [example_lens1, afocal_lens2] (Ray (- 100) 0 (1 / 10))))
       \<noteq> ray_u (Ray (- 100) 0 (1 / 10))"
  by (simp add: eval_defs)

text \<open>
  The rounding errors of the two refractions and of the propagation between them.
\<close>

lemma afocal_rounding_bound:
  assumes f1: "f1 \<noteq> 0" and f2: "f2 \<noteq> 0"
    and q1: "q1 = fl (y1 / f1)" and u1: "u1 = fl (u0 - q1)"
    and d: "d = fl (f1 + f2)" and p1: "p1 = fl (u1 * d)"
    and y2: "y2 = fl (y1 + p1)" and q2: "q2 = fl (y2 / f2)" and u2: "u2 = fl (u1 - q2)"
  shows "\<bar>u2 + f1 / f2 * u0\<bar>
           \<le> 2 powi (- 53) * (\<bar>f1 / f2\<bar> * (\<bar>q1\<bar> + \<bar>u1\<bar>)
                    + (\<bar>p1\<bar> + \<bar>u1\<bar> * \<bar>d\<bar> + \<bar>y2\<bar>) / \<bar>f2\<bar> + \<bar>q2\<bar> + \<bar>u2\<bar>)"
proof -
  define e :: real where "e = 2 powi (- 53)"
  have e0: "0 \<le> e" by (simp add: e_def)
  define e1 where "e1 = q1 - y1 / f1"
  define e2 where "e2 = u1 - (u0 - q1)"
  define e3 where "e3 = p1 - u1 * (f1 + f2)"
  define e5 where "e5 = y2 - (y1 + p1)"
  define e6 where "e6 = q2 - y2 / f2"
  define e7 where "e7 = u2 - (u1 - q2)"
  have b1: "\<bar>e1\<bar> \<le> e * \<bar>q1\<bar>" unfolding e1_def q1 e_def by (rule fl_error_rel)
  have b2: "\<bar>e2\<bar> \<le> e * \<bar>u1\<bar>" unfolding e2_def u1 e_def by (rule fl_error_rel)
  have b5: "\<bar>e5\<bar> \<le> e * \<bar>y2\<bar>" unfolding e5_def y2 e_def by (rule fl_error_rel)
  have b6: "\<bar>e6\<bar> \<le> e * \<bar>q2\<bar>" unfolding e6_def q2 e_def by (rule fl_error_rel)
  have b7: "\<bar>e7\<bar> \<le> e * \<bar>u2\<bar>" unfolding e7_def u2 e_def by (rule fl_error_rel)
  have bd: "\<bar>d - (f1 + f2)\<bar> \<le> e * \<bar>d\<bar>" unfolding d e_def by (rule fl_error_rel)
  have bp: "\<bar>p1 - u1 * d\<bar> \<le> e * \<bar>p1\<bar>" unfolding p1 e_def by (rule fl_error_rel)
  have b3: "\<bar>e3\<bar> \<le> e * (\<bar>p1\<bar> + \<bar>u1\<bar> * \<bar>d\<bar>)"
  proof -
    have "e3 = (p1 - u1 * d) + u1 * (d - (f1 + f2))" by (simp add: e3_def algebra_simps)
    then have "\<bar>e3\<bar> \<le> \<bar>p1 - u1 * d\<bar> + \<bar>u1\<bar> * \<bar>d - (f1 + f2)\<bar>"
      by (simp add: abs_mult[symmetric]) 
    also have "\<dots> \<le> e * \<bar>p1\<bar> + \<bar>u1\<bar> * (e * \<bar>d\<bar>)"
      using bp bd by (intro add_mono mult_left_mono) simp_all
    finally show ?thesis by (simp add: algebra_simps)
  qed
  have id: "u2 + f1 / f2 * u0 = f1 / f2 * (e1 - e2) - (e3 + e5) / f2 - e6 + e7"
    using f1 f2 unfolding e1_def e2_def e3_def e5_def e6_def e7_def by (simp add: field_simps)
  have "\<bar>u2 + f1 / f2 * u0\<bar>
          \<le> \<bar>f1 / f2\<bar> * (\<bar>e1\<bar> + \<bar>e2\<bar>) + (\<bar>e3\<bar> + \<bar>e5\<bar>) / \<bar>f2\<bar> + \<bar>e6\<bar> + \<bar>e7\<bar>"
  proof -
    define a where "a = f1 / f2 * (e1 - e2)"
    define b where "b = (e3 + e5) / f2"
    define a' where "a' = \<bar>f1 / f2\<bar> * (\<bar>e1\<bar> + \<bar>e2\<bar>)"
    define b' where "b' = (\<bar>e3\<bar> + \<bar>e5\<bar>) / \<bar>f2\<bar>"
    have "\<bar>a\<bar> \<le> a'"
      unfolding a_def a'_def abs_mult by (intro mult_left_mono) simp_all
    moreover have "\<bar>b\<bar> \<le> b'"
      unfolding b_def b'_def abs_divide by (intro divide_right_mono) simp_all
    ultimately have "\<bar>a - b - e6 + e7\<bar> \<le> a' + b' + \<bar>e6\<bar> + \<bar>e7\<bar>" by linarith
    then show ?thesis unfolding id a_def b_def a'_def b'_def .
  qed
  also have "\<dots> \<le> \<bar>f1 / f2\<bar> * (e * \<bar>q1\<bar> + e * \<bar>u1\<bar>)
                  + (e * (\<bar>p1\<bar> + \<bar>u1\<bar> * \<bar>d\<bar>) + e * \<bar>y2\<bar>) / \<bar>f2\<bar> + e * \<bar>q2\<bar> + e * \<bar>u2\<bar>"
    using b1 b2 b3 b5 b6 b7
    by (intro add_mono mult_left_mono divide_right_mono) simp_all
  also have "\<dots> = e * (\<bar>f1 / f2\<bar> * (\<bar>q1\<bar> + \<bar>u1\<bar>)
                    + (\<bar>p1\<bar> + \<bar>u1\<bar> * \<bar>d\<bar> + \<bar>y2\<bar>) / \<bar>f2\<bar> + \<bar>q2\<bar> + \<bar>u2\<bar>)"
    by (simp add: algebra_simps add_divide_distrib)
  finally show ?thesis unfolding e_def .
qed

lemma fp_two_lens_slope:
  assumes "lens_z l1 \<le> lens_z l2" and "is_double (lens_z l2)"
    and "ray_z r \<le> fl (lens_z l1 + fl (1 / 10 ^ 9))"
    and "ray_active (snd (fp_traceRay fl [l1, l2] r))"
    and "y1 = ray_y (fp_propagate fl r (lens_z l1))"
    and "u1 = fl (ray_u r - fl (y1 / lens_f l1))"
    and "y2 = fl (y1 + fl (u1 * fl (lens_z l2 - lens_z l1)))"
  shows "ray_u (snd (fp_traceRay fl [l1, l2] r)) = fl (u1 - fl (y2 / lens_f l2))"
proof -
  have ss: "sortLenses [l1, l2] = [l1, l2]" using assms(1) by (simp add: sortLenses_def)
  have act_loop: "ray_active (fp_traceRay_loop fl [l1, l2] r)"
    using assms(4) by (simp add: fp_traceRay_snd ss split: if_splits)
  have act: "ray_active r"
  proof (rule ccontr)
    assume "\<not> ray_active r"
    then have "fp_traceRay_loop fl [l1, l2] r = r" by (rule fp_loop_inactive)
    with act_loop \<open>\<not> ray_active r\<close> show False by simp
  qed
  have u: "ray_u (snd (fp_traceRay fl [l1, l2] r)) = ray_u (fp_traceRay_loop fl [l1, l2] r)"
    using act_loop by (simp add: fp_traceRay_snd ss fp_propagate_fields)
  let ?r1 = "fp_propagate fl r (lens_z l1)"
  let ?r2 = "fp_refract fl ?r1 (lens_f l1)"
  let ?r3 = "fp_propagate fl ?r2 (lens_z l2)"
  let ?r4 = "fp_refract fl ?r3 (lens_f l2)"
  have ns1: "\<not> ray_z r > fl (lens_z l1 + fl (1 / 10 ^ 9))" using assms(3) by simp
  have nb1: "\<not> \<bar>ray_y ?r1\<bar> > lens_h l1"
    using act_loop ns1 by (auto simp add: Let_def split: if_splits)
  have z2: "ray_z ?r2 = lens_z l1" using act by (simp add: fp_propagate_fields)
  have ns2: "\<not> ray_z ?r2 > fl (lens_z l2 + fl (1 / 10 ^ 9))"
    using z2 assms(1) threshold_ge[OF assms(2)] by linarith
  have l4: "fp_traceRay_loop fl [l1, l2] r = (if \<bar>ray_y ?r3\<bar> > lens_h l2 then stop ?r3 else ?r4)"
    using ns1 nb1 ns2 by (simp add: Let_def)
  with act_loop have r4: "fp_traceRay_loop fl [l1, l2] r = ?r4" by (simp split: if_splits)
  have a1: "ray_active ?r1" and a2: "ray_active ?r2" and a3: "ray_active ?r3"
    using act by simp_all
  have y1: "ray_y ?r2 = y1" by (simp add: assms(5))
  have u2: "ray_u ?r2 = u1"
    using fp_refract_u[OF a1, of fl "lens_f l1"] by (simp add: assms(5,6) fp_propagate_fields)
  have y3: "ray_y ?r3 = y2"
    using fp_propagate_y[OF a2, of fl "lens_z l2"] by (simp only: y1 u2 z2 assms(7))
  have u3: "ray_u ?r3 = u1" by (simp add: fp_propagate_fields u2)
  have "ray_u ?r4 = fl (u1 - fl (y2 / lens_f l2))"
    using fp_refract_u[OF a3, of fl "lens_f l2"] by (simp only: y3 u3)
  then show ?thesis by (simp only: u r4)
qed

text \<open>
  C5, amended. For two lenses with non-zero focal lengths \<open>f1\<close>, \<open>f2\<close>, the second a
  distance \<open>f1 + f2 \<ge> 0\<close> behind the first, and a ray that reaches the first lens and is
  not blocked, the slope after \<open>traceRay\<close> in binary64 is \<open>u1 - q2\<close> rounded, in the
  intermediate results \<open>y1\<close>, \<open>q1 = y1 / f1\<close>, \<open>u1 = u - q1\<close>, \<open>d\<close>, \<open>p1 = u1 d\<close>,
  \<open>y2 = y1 + p1\<close>, \<open>q2 = y2 / f2\<close> of the trace, and it differs from \<open>-(f1/f2)\<close> times the
  slope \<open>u\<close> before by at most \<open>2^-53\<close> times
  \<open>|f1/f2| (|q1| + |u1|) + (|p1| + |u1| |d| + |y2|) / |f2| + |q2| + |u'|\<close>, provided the
  results of the operations lie in the normal range. It is not the slope before.
\<close>

theorem fp_afocal_output_slope:
  assumes "lens_f l1 \<noteq> 0" and "lens_f l2 \<noteq> 0"
    and "lens_z l2 - lens_z l1 = lens_f l1 + lens_f l2"
    and "lens_z l1 \<le> lens_z l2" and "is_double (lens_z l2)"
    and "ray_z r \<le> fl (lens_z l1 + fl (1 / 10 ^ 9))"
    and "r' = snd (fp_traceRay fl [l1, l2] r)"
    and "ray_active r'"
    and "d0 = fl (lens_z l1 - ray_z r)" and "p0 = fl (ray_u r * d0)"
    and "y1 = fl (ray_y r + p0)"
    and "q1 = fl (y1 / lens_f l1)" and "u1 = fl (ray_u r - q1)"
    and "d = fl (lens_z l2 - lens_z l1)" and "p1 = fl (u1 * d)"
    and "y2 = fl (y1 + p1)" and "q2 = fl (y2 / lens_f l2)"
    and "in_range (lens_z l1 - ray_z r) \<and> in_range (ray_u r * d0) \<and> in_range (ray_y r + p0)
         \<and> in_range (y1 / lens_f l1) \<and> in_range (ray_u r - q1)
         \<and> in_range (lens_z l2 - lens_z l1) \<and> in_range (u1 * d) \<and> in_range (y1 + p1)
         \<and> in_range (y2 / lens_f l2) \<and> in_range (u1 - q2)"
  shows "ray_u r' = fl (u1 - q2)
         \<and> \<bar>ray_u r' + lens_f l1 / lens_f l2 * ray_u r\<bar>
             \<le> 2 powi (- 53) * (\<bar>lens_f l1 / lens_f l2\<bar> * (\<bar>q1\<bar> + \<bar>u1\<bar>)
                      + (\<bar>p1\<bar> + \<bar>u1\<bar> * \<bar>d\<bar> + \<bar>y2\<bar>) / \<bar>lens_f l2\<bar> + \<bar>q2\<bar> + \<bar>ray_u r'\<bar>)"
proof -
  have act_loop: "ray_active (fp_traceRay_loop fl (sortLenses [l1, l2]) r)"
    using assms(8) unfolding assms(7) by (simp add: fp_traceRay_snd split: if_splits)
  have act: "ray_active r"
  proof (rule ccontr)
    assume n: "\<not> ray_active r"
    then have "fp_traceRay_loop fl (sortLenses [l1, l2]) r = r" by (rule fp_loop_inactive)
    with act_loop n show False by simp
  qed
  have y1: "y1 = ray_y (fp_propagate fl r (lens_z l1))"
    using fp_propagate_y[OF act, of fl "lens_z l1"] by (simp only: assms(9,10,11))
  have u': "ray_u r' = fl (u1 - q2)"
    unfolding assms(7) assms(17)
    by (rule fp_two_lens_slope[OF assms(4,5,6) assms(8)[unfolded assms(7)] y1])
       (simp_all only: assms(12,13,14,15,16))
  have d: "d = fl (lens_f l1 + lens_f l2)" using assms(14) by (simp only: assms(3))
  from afocal_rounding_bound[OF assms(1,2) assms(12,13) d assms(15,16,17) u']
  show ?thesis using u' by simp
qed

theorem fp_afocal_output_slope_witness:
  "lens_f example_lens1 \<noteq> 0 \<and> lens_f afocal_lens2 \<noteq> 0
   \<and> lens_z afocal_lens2 - lens_z example_lens1 = lens_f example_lens1 + lens_f afocal_lens2
   \<and> lens_z example_lens1 \<le> lens_z afocal_lens2 \<and> is_double (lens_z afocal_lens2)
   \<and> ray_z (Ray (- 200) 1 (1 / 32)) \<le> fl (lens_z example_lens1 + fl (1 / 10 ^ 9))
   \<and> ray_active (snd (fp_traceRay fl [example_lens1, afocal_lens2] (Ray (- 200) 1 (1 / 32))))
   \<and> in_range (29 / 400) \<and> in_range (- (2972375754064527 / 2 ^ 56) * 200)
   \<and> ray_u (snd (fp_traceRay fl [example_lens1, afocal_lens2] (Ray (- 200) 1 (1 / 32))))
        = - (2251799813685249 / 2 ^ 56)
   \<and> \<bar>- (2251799813685249 / 2 ^ 56) + lens_f example_lens1 / lens_f afocal_lens2 * (1 / 32)\<bar>
        = 1 / 2 ^ 56
   \<and> \<bar>- (2251799813685249 / 2 ^ 56) + lens_f example_lens1 / lens_f afocal_lens2 * (1 / 32)\<bar>
        \<le> 2 powi (- 53) * (\<bar>lens_f example_lens1 / lens_f afocal_lens2\<bar>
                 * (\<bar>5224175567749775 / 2 ^ 56\<bar> + \<bar>- (2972375754064527 / 2 ^ 56)\<bar>)
              + (\<bar>- (4644337115725823 / 2 ^ 49)\<bar> + \<bar>- (2972375754064527 / 2 ^ 56)\<bar> * \<bar>200\<bar>
                  + \<bar>- (562949953421311 / 2 ^ 49)\<bar>) / \<bar>lens_f afocal_lens2\<bar>
              + \<bar>- (5764607523034225 / 2 ^ 59)\<bar> + \<bar>- (2251799813685249 / 2 ^ 56)\<bar>)"
proof -
  let ?r = "Ray (- 200) 1 (1 / 32)"
  let ?r' = "snd (fp_traceRay fl [example_lens1, afocal_lens2] ?r)"
  have h1: "lens_f example_lens1 \<noteq> 0" and h2: "lens_f afocal_lens2 \<noteq> 0"
    and h3: "lens_z afocal_lens2 - lens_z example_lens1 = lens_f example_lens1 + lens_f afocal_lens2"
    and h4: "lens_z example_lens1 \<le> lens_z afocal_lens2"
    by (simp_all add: example_fields afocal_fields)
  have h5: "is_double (lens_z afocal_lens2)"
    using is_double_small(2) by (simp add: afocal_fields)
  have h6: "ray_z ?r \<le> fl (lens_z example_lens1 + fl (1 / 10 ^ 9))"
    by (simp add: Ray_def example_fields fl_vals)
  have h8: "ray_active ?r'"
    by (simp add: fp_traceRay_def sortLenses_def fp_propagate_def fp_refract_def stop_def Ray_def
        Let_def fl_minus example_fields afocal_fields fl_vals)
  have d0: "200 = fl (lens_z example_lens1 - ray_z ?r)"
    by (simp add: Ray_def example_fields fl_vals)
  have p0: "25 / 4 = fl (ray_u ?r * 200)" by (simp add: Ray_def fl_vals)
  have y1: "29 / 4 = fl (ray_y ?r + 25 / 4)" by (simp add: Ray_def fl_vals)
  have q1: "5224175567749775 / 2 ^ 56 = fl (29 / 4 / lens_f example_lens1)"
    by (simp add: example_fields fl_vals)
  have u1: "- (2972375754064527 / 2 ^ 56) = fl (ray_u ?r - 5224175567749775 / 2 ^ 56)"
    by (simp add: Ray_def fl_minus fl_vals)
  have d: "200 = fl (lens_z afocal_lens2 - lens_z example_lens1)"
    by (simp add: example_fields afocal_fields fl_vals)
  have p1: "- (4644337115725823 / 2 ^ 49) = fl (- (2972375754064527 / 2 ^ 56) * 200)"
    by (simp add: fl_minus fl_vals)
  have y2: "- (562949953421311 / 2 ^ 49) = fl (29 / 4 + - (4644337115725823 / 2 ^ 49))"
    by (simp add: fl_minus fl_vals)
  have q2: "- (5764607523034225 / 2 ^ 59) = fl (- (562949953421311 / 2 ^ 49) / lens_f afocal_lens2)"
    by (simp add: afocal_fields fl_minus fl_vals)
  have u2: "fl (- (2972375754064527 / 2 ^ 56) - - (5764607523034225 / 2 ^ 59))
              = - (2251799813685249 / 2 ^ 56)"
    by (simp add: fl_minus fl_vals)
  have rng: "in_range (lens_z example_lens1 - ray_z ?r) \<and> in_range (ray_u ?r * 200)
         \<and> in_range (ray_y ?r + 25 / 4)
         \<and> in_range (29 / 4 / lens_f example_lens1)
         \<and> in_range (ray_u ?r - 5224175567749775 / 2 ^ 56)
         \<and> in_range (lens_z afocal_lens2 - lens_z example_lens1)
         \<and> in_range (- (2972375754064527 / 2 ^ 56) * 200)
         \<and> in_range (29 / 4 + - (4644337115725823 / 2 ^ 49))
         \<and> in_range (- (562949953421311 / 2 ^ 49) / lens_f afocal_lens2)
         \<and> in_range (- (2972375754064527 / 2 ^ 56) - - (5764607523034225 / 2 ^ 59))"
    by (intro conjI in_rangeI) (simp_all add: Ray_def example_fields afocal_fields)
  note t = fp_afocal_output_slope [OF h1 h2 h3 h4 h5 h6 refl h8 d0 p0 y1 q1 u1 d p1 y2 q2 rng,
      unfolded u2]
  have s: "ray_u ?r' = - (2251799813685249 / 2 ^ 56)" using t by blast
  have b: "\<bar>- (2251799813685249 / 2 ^ 56) + lens_f example_lens1 / lens_f afocal_lens2 * (1 / 32)\<bar>
        \<le> 2 powi (- 53) * (\<bar>lens_f example_lens1 / lens_f afocal_lens2\<bar>
                 * (\<bar>5224175567749775 / 2 ^ 56\<bar> + \<bar>- (2972375754064527 / 2 ^ 56)\<bar>)
              + (\<bar>- (4644337115725823 / 2 ^ 49)\<bar> + \<bar>- (2972375754064527 / 2 ^ 56)\<bar> * \<bar>200\<bar>
                  + \<bar>- (562949953421311 / 2 ^ 49)\<bar>) / \<bar>lens_f afocal_lens2\<bar>
              + \<bar>- (5764607523034225 / 2 ^ 59)\<bar> + \<bar>- (2251799813685249 / 2 ^ 56)\<bar>)"
    using t unfolding s by (simp add: Ray_def)
  have r1: "in_range (29 / 400)" "in_range (- (2972375754064527 / 2 ^ 56) * 200)"
    by (intro in_rangeI; simp)+
  have diff: "\<bar>- (2251799813685249 / 2 ^ 56) + lens_f example_lens1 / lens_f afocal_lens2 * (1 / 32)\<bar>
        = 1 / 2 ^ 56"
    by (simp add: example_fields afocal_fields)
  show ?thesis
    apply (intro conjI)
    subgoal by (rule h1)
    subgoal by (rule h2)
    subgoal by (rule h3)
    subgoal by (rule h4)
    subgoal by (rule h5)
    subgoal by (rule h6)
    subgoal by (rule h8)
    subgoal by (rule r1)
    subgoal by (rule r1)
    subgoal by (rule s)
    subgoal by (rule diff)
    subgoal by (rule b)
    done
qed

end
